theory Spec2Isabelle
  imports Main "HOL-Library.Word" "HOL-Library.Signed_Division" "HOL-Library.Multiset"
begin

section \<open>The file system the package runs against\<close>

text \<open>
  Package \<open>fcompare\<close> is a thin layer over the Go standard library: every function
  reads or writes the file system. The embedding threads an explicit \<open>world\<close> through
  each call. A world holds the files (content and the two timestamps), a clock, the
  behaviour of the mounted file system when a timestamp is set, a fault oracle that says
  which system calls fail, and the trace of system calls made so far.
\<close>

type_synonym byte = "8 word"
type_synonym path = string

text \<open>Go error values: the errno of an \<open>*os.PathError\<close>, \<open>io.EOF\<close>, and \<open>errors.New s\<close>.\<close>

datatype error = ENOENT | EACCES | EPERM | EEXIST | EINVAL | EIO | EOF | ErrorString string

datatype whence = SeekStart | SeekCurrent | SeekEnd

text \<open>
  The system calls the package makes, with their arguments. \<open>Read p off n\<close> is a read of
  file \<open>p\<close> from byte offset \<open>off\<close>: \<open>Some n\<close> asks for \<open>n\<close> bytes (\<open>io.CopyN\<close>),
  \<open>None\<close> reads to the end of the file (\<open>io.Copy\<close>).
\<close>

datatype call =
    AtimeStat path
  | Stat path
  | Open path
  | Read path int "int option"
  | Seek path int whence
  | Chtimes path int int
  | CreateTemp path string
  | Remove path

text \<open>Timestamps are \<open>time.Time\<close> values: nanoseconds since the Unix epoch.\<close>

record inode =
  content :: "byte list"
  atime :: int
  mtime :: int

record world =
  files :: "path \<Rightarrow> inode option"
  fault :: "call \<Rightarrow> error option"
  stamp :: "path \<Rightarrow> int \<Rightarrow> int \<Rightarrow> int"
  on_read :: "path \<Rightarrow> int \<Rightarrow> int"
  tmpname :: "path \<Rightarrow> string \<Rightarrow> path"
  now :: int
  trace :: "call list"

text \<open>
  \<open>fault w c = Some e\<close>: the call \<open>c\<close> fails with \<open>e\<close> in this world (no permission, bad
  sector, read-only mount, ...). \<open>stamp w p old t\<close> is the timestamp the file system
  records on \<open>p\<close> when asked to replace \<open>old\<close> by \<open>t\<close>: \<open>t\<close> itself on a precise file
  system, \<open>t\<close> rounded on a coarse one, \<open>old\<close> where the request is silently ignored.
  \<open>on_read w p old\<close> is the access time a read leaves on \<open>p\<close> when it was \<open>old\<close> before: the
  clock on a mount that tracks every access, \<open>old\<close> on a \<open>noatime\<close> mount.
  \<open>tmpname w dir pat\<close> is the name \<open>os.CreateTemp\<close> picks in \<open>dir\<close>. \<open>now w\<close> is what the
  clock shows during the run: a new file carries it.
\<close>

text \<open>The functions of imported packages that are pure: SHA-256 and \<open>filepath.Dir\<close>.\<close>

record lib =
  sha256 :: "byte list \<Rightarrow> byte list"
  Dir :: "path \<Rightarrow> path"

text \<open>
  How a call of the package ends: it returns to its caller, or \<open>log.Fatal\<close> ends the
  process (\<open>os.Exit(1)\<close>, deferred calls do not run), or the runtime panics.
\<close>

datatype 'a outcome = Returns 'a | Exits | Panics

definition log_call :: "call \<Rightarrow> world \<Rightarrow> world" where
  "log_call c w = w\<lparr>trace := trace w @ [c]\<rparr>"

text \<open>\<open>time.Time.Unix\<close>: whole seconds since the epoch.\<close>

definition Unix :: "int \<Rightarrow> int" where
  "Unix t = t div 1000000000"

subsection \<open>os.Stat and atime.Stat\<close>

record FileInfo =
  Size :: int
  ModTime :: int

definition os_Stat :: "world \<Rightarrow> path \<Rightarrow> (error + FileInfo) \<times> world" where
  "os_Stat w p =
     (let w1 = log_call (Stat p) w in
      case fault w (Stat p) of
        Some e \<Rightarrow> (Inl e, w1)
      | None \<Rightarrow>
          (case files w p of
             None \<Rightarrow> (Inl ENOENT, w1)
           | Some f \<Rightarrow> (Inr \<lparr>Size = int (length (content f)), ModTime = mtime f\<rparr>, w1)))"

definition atime_Stat :: "world \<Rightarrow> path \<Rightarrow> (error + int) \<times> world" where
  "atime_Stat w p =
     (let w1 = log_call (AtimeStat p) w in
      case fault w (AtimeStat p) of
        Some e \<Rightarrow> (Inl e, w1)
      | None \<Rightarrow>
          (case files w p of
             None \<Rightarrow> (Inl ENOENT, w1)
           | Some f \<Rightarrow> (Inr (atime f), w1)))"

subsection \<open>os.Open, io.Copy, io.CopyN, Seek\<close>

text \<open>An open \<open>*os.File\<close>: the path it was opened on and its read offset.\<close>

record File =
  fname :: path
  offset :: int

definition os_Open :: "world \<Rightarrow> path \<Rightarrow> (error + File) \<times> world" where
  "os_Open w p =
     (let w1 = log_call (Open p) w in
      case fault w (Open p) of
        Some e \<Rightarrow> (Inl e, w1)
      | None \<Rightarrow>
          (case files w p of
             None \<Rightarrow> (Inl ENOENT, w1)
           | Some f \<Rightarrow> (Inr \<lparr>fname = p, offset = 0\<rparr>, w1)))"

text \<open>Reading a file moves its access time as the mount says.\<close>

definition touch :: "path \<Rightarrow> world \<Rightarrow> world" where
  "touch p w =
     (case files w p of
        None \<Rightarrow> w
      | Some f \<Rightarrow> w\<lparr>files := (files w)(p \<mapsto> f\<lparr>atime := on_read w p (atime f)\<rparr>)\<rparr>)"

text \<open>
  A running hash (\<open>hash.Hash\<close>) is the bytes written to it so far; \<open>h.Sum(nil)\<close> is the
  digest of that stream. \<open>io.Copy(h, f)\<close> writes everything from the offset of \<open>f\<close> to the
  end of the file into \<open>h\<close>. A read that fails has delivered some bytes before: the file
  is touched all the same.
\<close>

definition io_Copy :: "world \<Rightarrow> byte list \<Rightarrow> File \<Rightarrow> error option \<times> byte list \<times> File \<times> world" where
  "io_Copy w h f =
     (let c = Read (fname f) (offset f) None; w1 = touch (fname f) (log_call c w) in
      case fault w c of
        Some e \<Rightarrow> (Some e, h, f, w1)
      | None \<Rightarrow>
          (case files w (fname f) of
             None \<Rightarrow> (Some EIO, h, f, w1)
           | Some fl \<Rightarrow>
               (let data = drop (nat (offset f)) (content fl) in
                (None, h @ data, f\<lparr>offset := offset f + int (length data)\<rparr>, w1))))"

text \<open>\<open>io.CopyN(h, f, n)\<close>: exactly \<open>n\<close> bytes, or \<open>io.EOF\<close> when the file ends before.\<close>

definition io_CopyN :: "world \<Rightarrow> byte list \<Rightarrow> File \<Rightarrow> int \<Rightarrow> error option \<times> byte list \<times> File \<times> world" where
  "io_CopyN w h f n =
     (let c = Read (fname f) (offset f) (Some n); w1 = touch (fname f) (log_call c w) in
      case fault w c of
        Some e \<Rightarrow> (Some e, h, f, w1)
      | None \<Rightarrow>
          (case files w (fname f) of
             None \<Rightarrow> (Some EIO, h, f, w1)
           | Some fl \<Rightarrow>
               (let data = take (nat n) (drop (nat (offset f)) (content fl));
                    f1 = f\<lparr>offset := offset f + int (length data)\<rparr> in
                (if int (length data) < n then Some EOF else None, h @ data, f1, w1))))"

definition f_Seek :: "world \<Rightarrow> File \<Rightarrow> int \<Rightarrow> whence \<Rightarrow> (error + File) \<times> world" where
  "f_Seek w f off wh =
     (let c = Seek (fname f) off wh; w1 = log_call c w in
      case fault w c of
        Some e \<Rightarrow> (Inl e, w1)
      | None \<Rightarrow>
          (case files w (fname f) of
             None \<Rightarrow> (Inl EIO, w1)
           | Some fl \<Rightarrow>
               (let pos = (case wh of
                             SeekStart \<Rightarrow> off
                           | SeekCurrent \<Rightarrow> offset f + off
                           | SeekEnd \<Rightarrow> int (length (content fl)) + off) in
                if pos < 0 then (Inl EINVAL, w1) else (Inr (f\<lparr>offset := pos\<rparr>), w1))))"

subsection \<open>os.Chtimes, os.CreateTemp, os.Remove\<close>

definition os_Chtimes :: "world \<Rightarrow> path \<Rightarrow> int \<Rightarrow> int \<Rightarrow> error option \<times> world" where
  "os_Chtimes w p a m =
     (let w1 = log_call (Chtimes p a m) w in
      case fault w (Chtimes p a m) of
        Some e \<Rightarrow> (Some e, w1)
      | None \<Rightarrow>
          (case files w p of
             None \<Rightarrow> (Some ENOENT, w1)
           | Some f \<Rightarrow>
               (None, w1\<lparr>files := (files w)(p \<mapsto>
                  f\<lparr>atime := stamp w p (atime f) a, mtime := stamp w p (mtime f) m\<rparr>)\<rparr>)))"

text \<open>
  \<open>os.CreateTemp\<close> opens with \<open>O_EXCL\<close>: it never returns a file that was there before.
  The new file is empty and carries the clock as both timestamps.
\<close>

definition os_CreateTemp :: "world \<Rightarrow> path \<Rightarrow> string \<Rightarrow> (error + path) \<times> world" where
  "os_CreateTemp w dir pat =
     (let w1 = log_call (CreateTemp dir pat) w; tfn = tmpname w dir pat in
      case fault w (CreateTemp dir pat) of
        Some e \<Rightarrow> (Inl e, w1)
      | None \<Rightarrow>
          (case files w tfn of
             Some f \<Rightarrow> (Inl EEXIST, w1)
           | None \<Rightarrow>
               (Inr tfn, w1\<lparr>files := (files w)(tfn \<mapsto>
                  \<lparr>content = [], atime = now w, mtime = now w\<rparr>)\<rparr>)))"

definition os_Remove :: "world \<Rightarrow> path \<Rightarrow> error option \<times> world" where
  "os_Remove w p =
     (let w1 = log_call (Remove p) w in
      case fault w (Remove p) of
        Some e \<Rightarrow> (Some e, w1)
      | None \<Rightarrow>
          (case files w p of
             None \<Rightarrow> (Some ENOENT, w1)
           | Some f \<Rightarrow> (None, w1\<lparr>files := (files w)(p := None)\<rparr>)))"

section \<open>Formatting: hex.EncodeToString and strconv.FormatInt\<close>

definition hexdigit :: "nat \<Rightarrow> char" where
  "hexdigit n = ''0123456789abcdef'' ! n"

fun EncodeToString :: "byte list \<Rightarrow> string" where
  "EncodeToString [] = []"
| "EncodeToString (b # bs) =
     hexdigit (unat b div 16) # hexdigit (unat b mod 16) # EncodeToString bs"

fun digits10 :: "nat \<Rightarrow> string" where
  "digits10 n =
     (if n < 10 then [''0123456789'' ! n]
      else digits10 (n div 10) @ [''0123456789'' ! (n mod 10)])"

text \<open>\<open>strconv.FormatInt(i, 10)\<close>.\<close>

definition FormatInt :: "int \<Rightarrow> string" where
  "FormatInt i = (if i < 0 then CHR ''-'' # digits10 (nat (- i)) else digits10 (nat i))"

text \<open>Reading a decimal string back, to say what \<open>FormatInt\<close> means.\<close>

definition decimal_value :: "string \<Rightarrow> nat" where
  "decimal_value s = foldl (\<lambda>a c. 10 * a + (of_char c - 48)) 0 s"

section \<open>Package fcompare\<close>

definition minPartialChecksumSize :: int where
  "minPartialChecksumSize = 16 * 1024 * 1024"

type_synonym CompareMethod = int

definition CmpSize :: CompareMethod where "CmpSize = 0"
definition CmpPartial :: CompareMethod where "CmpPartial = 1"
definition CmpFull :: CompareMethod where "CmpFull = 2"

subsection \<open>GetChecksum and GetPartialChecksum\<close>

text \<open>
  A failed \<open>os.Open\<close> is \<open>log.Fatal\<close> in both functions. The deferred \<open>f.Close()\<close> changes
  nothing the world records and is left out. Go's \<open>/\<close> and \<open>%\<close> truncate: \<open>sdiv\<close> and
  \<open>smod\<close>.
\<close>

definition GetChecksum :: "lib \<Rightarrow> world \<Rightarrow> path \<Rightarrow> (string \<times> error option) outcome \<times> world" where
  "GetChecksum L w filename =
     (case os_Open w filename of
        (Inl err, w1) \<Rightarrow> (Exits, w1)
      | (Inr f, w1) \<Rightarrow>
          (case io_Copy w1 [] f of
             (Some err, h, f1, w2) \<Rightarrow> (Returns ('''', Some err), w2)
           | (None, h, f1, w2) \<Rightarrow> (Returns (EncodeToString (sha256 L h), None), w2)))"

definition GetPartialChecksum ::
  "lib \<Rightarrow> world \<Rightarrow> path \<Rightarrow> (string \<times> bool \<times> error option) outcome \<times> world" where
  "GetPartialChecksum L w filename =
     (case os_Stat w filename of
        (Inl err, w1) \<Rightarrow> (Returns ('''', False, Some err), w1)
      | (Inr fi, w1) \<Rightarrow>
     (let filesize = Size fi in
      case os_Open w1 filename of
        (Inl err, w2) \<Rightarrow> (Exits, w2)
      | (Inr f, w2) \<Rightarrow>
     (if filesize \<le> minPartialChecksumSize then
        (case io_Copy w2 [] f of
           (Some err, h, f1, w3) \<Rightarrow> (Returns ('''', False, Some err), w3)
         | (None, h, f1, w3) \<Rightarrow> (Returns (EncodeToString (sha256 L h), True, None), w3))
      else
        (case io_CopyN w2 [] f (1024 * 1024) of
           (Some err, h1, f1, w3) \<Rightarrow> (Returns ('''', False, Some err), w3)
         | (None, h1, f1, w3) \<Rightarrow>
        (let filemid = filesize sdiv 2;
             filemid = filemid - (filemid smod (1024 * 1024)) in
         case f_Seek w3 f1 filemid SeekStart of
           (Inl err, w4) \<Rightarrow> (Returns ('''', False, Some err), w4)
         | (Inr f2, w4) \<Rightarrow>
        (case io_CopyN w4 h1 f2 (1024 * 1024) of
           (Some err, h2, f3, w5) \<Rightarrow> (Returns ('''', False, Some err), w5)
         | (None, h2, f3, w5) \<Rightarrow>
        (case f_Seek w5 f3 (- 1024 * 1024) SeekEnd of
           (Inl err, w6) \<Rightarrow> (Returns ('''', False, Some err), w6)
         | (Inr f4, w6) \<Rightarrow>
        (case io_Copy w6 h2 f4 of
           (Some err, h3, f5, w7) \<Rightarrow> (Returns ('''', False, Some err), w7)
         | (None, h3, f5, w7) \<Rightarrow>
             (Returns (EncodeToString (sha256 L h3), False, None), w7)))))))))"

subsection \<open>TestKeepAtime\<close>

text \<open>\<open>time.Date(2000, 1, 1, 0, 0, 0, 0, time.UTC)\<close>: 946684800 seconds after the epoch.\<close>

definition aTime2000 :: int where
  "aTime2000 = 946684800 * 1000000000"

text \<open>
  The temporary file is closed at once and \<open>os.Remove\<close> is deferred: it runs at each
  return after the file was created, and its result is dropped.
\<close>

definition TestKeepAtime :: "lib \<Rightarrow> world \<Rightarrow> path \<Rightarrow> (bool \<times> error option) outcome \<times> world" where
  "TestKeepAtime L w fn =
     (let dir = Dir L fn in
      case os_CreateTemp w dir ''fcompare'' of
        (Inl err, w1) \<Rightarrow> (Returns (False, Some err), w1)
      | (Inr tfn, w1) \<Rightarrow>
     (let aTime = aTime2000 in
      case os_Chtimes w1 tfn aTime aTime of
        (Some err, w2) \<Rightarrow> (Returns (False, Some err), snd (os_Remove w2 tfn))
      | (None, w2) \<Rightarrow>
     (case atime_Stat w2 tfn of
        (Inl err, w3) \<Rightarrow> (Returns (False, Some err), snd (os_Remove w3 tfn))
      | (Inr aTimeChk, w3) \<Rightarrow>
          (if Unix aTime \<noteq> Unix aTimeChk
           then (Returns (False, None), snd (os_Remove w3 tfn))
           else (Returns (True, None), snd (os_Remove w3 tfn))))))"

subsection \<open>processFile\<close>

text \<open>
  \<open>CompareMethod\<close> is an \<open>int\<close>: a value other than the three constants reaches the
  \<open>default\<close> branch. The deferred \<open>os.Chtimes\<close> is registered after both stats
  succeeded, with the times read then; it runs when the function returns, not when
  \<open>log.Fatal\<close> ends the process, and its result is dropped. \<open>fingerprint\<close> is the
  \<open>switch\<close> statement.
\<close>

definition fingerprint ::
  "lib \<Rightarrow> world \<Rightarrow> path \<Rightarrow> CompareMethod \<Rightarrow> FileInfo \<Rightarrow> (string \<times> error option) outcome \<times> world" where
  "fingerprint L w filename method fi =
     (if method = CmpPartial then
        (case GetPartialChecksum L w filename of
           (Returns (s, isFull, err), w1) \<Rightarrow> (Returns (s, err), w1)
         | (Exits, w1) \<Rightarrow> (Exits, w1)
         | (Panics, w1) \<Rightarrow> (Panics, w1))
      else if method = CmpSize then
        (let fSize = Size fi in (Returns (FormatInt fSize, None), w))
      else if method = CmpFull then GetChecksum L w filename
      else (Exits, w))"

definition processFile ::
  "lib \<Rightarrow> world \<Rightarrow> path \<Rightarrow> CompareMethod \<Rightarrow> bool \<Rightarrow> (string \<times> error option) outcome \<times> world" where
  "processFile L w filename method keepATime =
     (case atime_Stat w filename of
        (Inl err, w1) \<Rightarrow> (Exits, w1)
      | (Inr at, w1) \<Rightarrow>
     (case os_Stat w1 filename of
        (Inl err, w2) \<Rightarrow> (Returns ('''', Some err), w2)
      | (Inr fi, w2) \<Rightarrow>
     (let mt = ModTime fi in
      case fingerprint L w2 filename method fi of
        (Exits, w3) \<Rightarrow> (Exits, w3)
      | (r, w3) \<Rightarrow>
          (r, if keepATime then snd (os_Chtimes w3 filename at mt) else w3))))"

subsection \<open>CompareFiles\<close>

text \<open>
  The Go map \<open>fis\<close> from fingerprint to indices, as an association list with one entry
  for each key. \<open>fis[fi] = append(fis[fi], i)\<close>:
\<close>

fun fis_append :: "(string \<times> nat list) list \<Rightarrow> string \<Rightarrow> nat \<Rightarrow> (string \<times> nat list) list" where
  "fis_append [] fi i = [(fi, [i])]"
| "fis_append ((k, v) # m) fi i =
     (if k = fi then (k, v @ [i]) # m else (k, v) # fis_append m fi i)"

text \<open>
  \<open>range\<close> over a Go map visits the entries in an order the runtime picks at random.
  The choice is a list of numbers: each picks the next entry among those left. Every
  order of the entries is \<open>shuffle seed\<close> for some \<open>seed\<close>.
\<close>

fun shuffle :: "nat list \<Rightarrow> 'a list \<Rightarrow> 'a list" where
  "shuffle seed [] = []"
| "shuffle [] xs = xs"
| "shuffle (s # seed) xs =
     (let i = s mod length xs in xs ! i # shuffle seed (take i xs @ drop (Suc i) xs))"

text \<open>The loop \<open>for i, fn := range fns\<close>, from index \<open>i\<close> on.\<close>

fun compare_loop ::
  "lib \<Rightarrow> CompareMethod \<Rightarrow> bool \<Rightarrow> world \<Rightarrow> (string \<times> nat list) list \<Rightarrow> nat \<Rightarrow> path list
   \<Rightarrow> (error + (string \<times> nat list) list) outcome \<times> world" where
  "compare_loop L method keepATime w fis i [] = (Returns (Inr fis), w)"
| "compare_loop L method keepATime w fis i (fn # fns) =
     (case processFile L w fn method keepATime of
        (Returns (fi, Some err), w1) \<Rightarrow> (Returns (Inl err), w1)
      | (Returns (fi, None), w1) \<Rightarrow>
          compare_loop L method keepATime w1 (fis_append fis fi i) (Suc i) fns
      | (Exits, w1) \<Rightarrow> (Exits, w1)
      | (Panics, w1) \<Rightarrow> (Panics, w1))"

text \<open>
  \<open>fns[0]\<close> on an empty slice panics. The result \<open>[][]int\<close> is a list of lists, the nil
  slice being \<open>[]\<close>: \<open>equalFiles\<close> is still nil when the loop returns an error.
\<close>

definition CompareFiles ::
  "lib \<Rightarrow> nat list \<Rightarrow> world \<Rightarrow> path list \<Rightarrow> CompareMethod \<Rightarrow> bool \<Rightarrow> bool
   \<Rightarrow> (nat list list \<times> error option) outcome \<times> world" where
  "CompareFiles L seed w fns method keepATime checkKeepAtime =
     (case (if checkKeepAtime then
              (case fns of
                 [] \<Rightarrow> (Panics, w)
               | fn0 # rest \<Rightarrow>
                   (case TestKeepAtime L w fn0 of
                      (Returns (canKeep, Some err), w1) \<Rightarrow> (Returns (Some err), w1)
                    | (Returns (canKeep, None), w1) \<Rightarrow>
                        (if \<not> canKeep then (Returns (Some (ErrorString ''can't keep atime'')), w1)
                         else (Returns None, w1))
                    | (Exits, w1) \<Rightarrow> (Exits, w1)
                    | (Panics, w1) \<Rightarrow> (Panics, w1)))
            else (Returns None, w)) of
        (Returns (Some err), w1) \<Rightarrow> (Returns ([], Some err), w1)
      | (Returns None, w1) \<Rightarrow>
          (case compare_loop L method keepATime w1 [] 0 fns of
             (Returns (Inl err), w2) \<Rightarrow> (Returns ([], Some err), w2)
           | (Returns (Inr fis), w2) \<Rightarrow> (Returns (map snd (shuffle seed fis), None), w2)
           | (Exits, w2) \<Rightarrow> (Exits, w2)
           | (Panics, w2) \<Rightarrow> (Panics, w2))
      | (Exits, w1) \<Rightarrow> (Exits, w1)
      | (Panics, w1) \<Rightarrow> (Panics, w1))"

section \<open>Notions the properties are stated with\<close>

text \<open>The bytes \<open>[a, b)\<close> of a file.\<close>

definition slice :: "'a list \<Rightarrow> nat \<Rightarrow> nat \<Rightarrow> 'a list" where
  "slice xs a b = take (b - a) (drop a xs)"

text \<open>Half the size, rounded down to a multiple of 1 MiB.\<close>

definition filemid :: "nat \<Rightarrow> nat" where
  "filemid n = n div 2 - (n div 2) mod 1048576"

text \<open>
  The fingerprints a run of the loop computes, in input order: each file is processed in
  the world its predecessors left.
\<close>

fun fingerprints :: "lib \<Rightarrow> CompareMethod \<Rightarrow> bool \<Rightarrow> world \<Rightarrow> path list \<Rightarrow> string list" where
  "fingerprints L method keepATime w [] = []"
| "fingerprints L method keepATime w (fn # fns) =
     (case processFile L w fn method keepATime of
        (Returns (fi, err), w1) \<Rightarrow> fi # fingerprints L method keepATime w1 fns
      | (Exits, w1) \<Rightarrow> []
      | (Panics, w1) \<Rightarrow> [])"

text \<open>The grouping of a list of fingerprints, without the file system.\<close>

fun group_from :: "(string \<times> nat list) list \<Rightarrow> nat \<Rightarrow> string list \<Rightarrow> (string \<times> nat list) list" where
  "group_from fis i [] = fis"
| "group_from fis i (fp # fps) = group_from (fis_append fis fp i) (Suc i) fps"

text \<open>
  The class of a fingerprint that occurs in a list: the indices that carry it, in
  input order.
\<close>

definition classes :: "string list \<Rightarrow> string \<Rightarrow> nat list option" where
  "classes fps k =
     (if k \<in> set fps then Some (filter (\<lambda>j. fps ! j = k) [0..<length fps]) else None)"

text \<open>
  What fingerprinting may change: the trace grows and timestamps move; the files stay
  the same files with the same content, and the file system behaves as before.
\<close>

definition evolves :: "world \<Rightarrow> world \<Rightarrow> bool" where
  "evolves w w' \<longleftrightarrow>
     fault w' = fault w \<and> stamp w' = stamp w \<and> on_read w' = on_read w \<and> now w' = now w \<and>
     tmpname w' = tmpname w \<and>
     (\<forall>p. map_option content (files w' p) = map_option content (files w p))"

text \<open>
  The calls made between two worlds, and the worlds reached through calls that the fault
  oracle lets pass.
\<close>

definition clean_since :: "world \<Rightarrow> world \<Rightarrow> bool" where
  "clean_since w w' \<longleftrightarrow> (\<exists>cs. trace w' = trace w @ cs \<and> (\<forall>c \<in> set cs. fault w c = None))"

definition calls_since :: "world \<Rightarrow> world \<Rightarrow> call list" where
  "calls_since w w' = drop (length (trace w)) (trace w')"

text \<open>The world in which the loop of \<open>CompareFiles\<close> starts: after the probe, if there is one.\<close>

definition loop_start :: "lib \<Rightarrow> world \<Rightarrow> path list \<Rightarrow> bool \<Rightarrow> world" where
  "loop_start L w fns checkKeepAtime =
     (case fns of
        [] \<Rightarrow> w
      | fn0 # rest \<Rightarrow> if checkKeepAtime then snd (TestKeepAtime L w fn0) else w)"

subsection \<open>Concrete worlds\<close>

text \<open>A stand-in for the digest (the identity), and a directory function.\<close>

definition lib0 :: lib where
  "lib0 = \<lparr>sha256 = (\<lambda>bs. bs), Dir = (\<lambda>p. ''.'')\<rparr>"

text \<open>
  Three small files on a file system that records timestamps as asked and stamps the
  clock on a file that is read.
\<close>

definition world0 :: world where
  "world0 =
     \<lparr>files = [''a'' \<mapsto> \<lparr>content = [1, 2, 255], atime = 5000000000, mtime = 3000000000\<rparr>,
               ''b'' \<mapsto> \<lparr>content = [7], atime = 6000000000, mtime = 4000000000\<rparr>,
               ''c'' \<mapsto> \<lparr>content = [1, 2, 255], atime = 7000000000, mtime = 2000000000\<rparr>],
      fault = (\<lambda>c. None),
      stamp = (\<lambda>p old t. t),
      on_read = (\<lambda>p old. 100000000000),
      tmpname = (\<lambda>d pat. d @ ''/'' @ pat @ ''1''),
      now = 100000000000,
      trace = []\<rparr>"

text \<open>The same files where the file system ignores every request to set a timestamp.\<close>

definition world_ignore :: world where
  "world_ignore = world0\<lparr>stamp := (\<lambda>p old t. old)\<rparr>"

text \<open>The same files where \<open>a\<close> may not be opened.\<close>

definition world_denied :: world where
  "world_denied = world0\<lparr>fault := (\<lambda>c. if c = Open ''a'' then Some EACCES else None)\<rparr>"

text \<open>The same files where every read of \<open>b\<close> fails.\<close>

definition world_badread :: world where
  "world_badread =
     world0\<lparr>fault := (\<lambda>c. case c of Read p off n \<Rightarrow> (if p = ''b'' then Some EIO else None)
                           | _ \<Rightarrow> None)\<rparr>"

text \<open>The same files, owned by someone else: they can be read, their times cannot be set.\<close>

definition world_notowner :: world where
  "world_notowner =
     world0\<lparr>fault := (\<lambda>c. case c of Chtimes p a m \<Rightarrow> Some EPERM | _ \<Rightarrow> None)\<rparr>"

text \<open>The same files where no temporary file can be created.\<close>

definition world_readonly :: world where
  "world_readonly =
     world0\<lparr>fault := (\<lambda>c. case c of CreateTemp d pat \<Rightarrow> Some EACCES | _ \<Rightarrow> None)\<rparr>"

text \<open>A file of 17 MiB.\<close>

definition big_content :: "byte list" where
  "big_content = replicate 17825792 0"

definition world_big :: world where
  "world_big =
     world0\<lparr>files := [''big'' \<mapsto> \<lparr>content = big_content, atime = 5000000000, mtime = 3000000000\<rparr>]\<rparr>"

section \<open>The system calls, step by step\<close>

lemma files_log_call [simp]: "files (log_call c w) = files w"
  and fault_log_call [simp]: "fault (log_call c w) = fault w"
  and stamp_log_call [simp]: "stamp (log_call c w) = stamp w"
  and on_read_log_call [simp]: "on_read (log_call c w) = on_read w"
  and now_log_call [simp]: "now (log_call c w) = now w"
  and tmpname_log_call [simp]: "tmpname (log_call c w) = tmpname w"
  and trace_log_call [simp]: "trace (log_call c w) = trace w @ [c]"
  by (simp_all add: log_call_def)

lemma files_touch:
  "files (touch p w) q =
     (if q = p then map_option (\<lambda>f. f\<lparr>atime := on_read w p (atime f)\<rparr>) (files w p)
      else files w q)"
  by (simp add: touch_def split: option.splits)

lemma fault_touch [simp]: "fault (touch p w) = fault w"
  and stamp_touch [simp]: "stamp (touch p w) = stamp w"
  and on_read_touch [simp]: "on_read (touch p w) = on_read w"
  and now_touch [simp]: "now (touch p w) = now w"
  and tmpname_touch [simp]: "tmpname (touch p w) = tmpname w"
  and trace_touch [simp]: "trace (touch p w) = trace w"
  by (simp_all add: touch_def split: option.splits)

lemma sdiv_nonneg: "0 \<le> a \<Longrightarrow> 0 < b \<Longrightarrow> (a::int) sdiv b = a div b"
  by (simp add: signed_divide_int_def sgn_if)

lemma smod_nonneg: "0 \<le> a \<Longrightarrow> 0 < b \<Longrightarrow> (a::int) smod b = a mod b"
  by (simp add: signed_modulo_int_def sgn_if)

lemma filemid_int:
  "int n sdiv 2 - ((int n sdiv 2) smod 1048576) = int (filemid n)"
proof -
  have "int n sdiv 2 = int (n div 2)"
    by (simp add: sdiv_nonneg zdiv_int)
  moreover have "int (n div 2) smod 1048576 = int ((n div 2) mod 1048576)"
    by (simp add: smod_nonneg zmod_int)
  moreover have "(n div 2) mod 1048576 \<le> n div 2"
    by simp
  ultimately show ?thesis
    by (simp add: filemid_def)
qed

lemma filemid_bound: "16777216 < n \<Longrightarrow> filemid n + 1048576 \<le> n"
  unfolding filemid_def by arith

lemma io_CopyN_ok:
  assumes "files w p = Some fl" "fault w (Read p (int a) (Some (int k))) = None"
    and "a + k \<le> length (content fl)"
  shows "io_CopyN w h \<lparr>fname = p, offset = int a\<rparr> (int k) =
           (None, h @ slice (content fl) a (a + k), \<lparr>fname = p, offset = int (a + k)\<rparr>,
            touch p (log_call (Read p (int a) (Some (int k))) w))"
  using assms by (simp add: io_CopyN_def Let_def slice_def)

lemma io_Copy_ok:
  assumes "files w p = Some fl" "fault w (Read p (int a) None) = None"
    and "a \<le> length (content fl)"
  shows "io_Copy w h \<lparr>fname = p, offset = int a\<rparr> =
           (None, h @ slice (content fl) a (length (content fl)),
            \<lparr>fname = p, offset = int (length (content fl))\<rparr>,
            touch p (log_call (Read p (int a) None) w))"
  using assms by (simp add: io_Copy_def Let_def slice_def)

lemma f_Seek_start_ok:
  assumes "files w p = Some fl" "fault w (Seek p (int a) SeekStart) = None"
  shows "f_Seek w \<lparr>fname = p, offset = b\<rparr> (int a) SeekStart =
           (Inr \<lparr>fname = p, offset = int a\<rparr>, log_call (Seek p (int a) SeekStart) w)"
  using assms by (simp add: f_Seek_def Let_def)

lemma f_Seek_end_ok:
  assumes "files w p = Some fl" "fault w (Seek p (- int k) SeekEnd) = None"
    and "k \<le> length (content fl)"
  shows "f_Seek w \<lparr>fname = p, offset = b\<rparr> (- int k) SeekEnd =
           (Inr \<lparr>fname = p, offset = int (length (content fl) - k)\<rparr>,
            log_call (Seek p (- int k) SeekEnd) w)"
  using assms by (simp add: f_Seek_def Let_def of_nat_diff)

section \<open>Small files: the partial checksum is the full checksum\<close>

text \<open>
  C1. For a file of at most 16 MiB that can be stat'ed, \<open>GetPartialChecksum\<close> ends as
  \<open>GetChecksum\<close> does: the same hex digest with \<open>isFull = True\<close> when the checksum is
  computed, the same error (and \<open>isFull = False\<close>) when the read fails. Where the file
  can be opened and read, that digest is the hex SHA-256 of the whole content.
\<close>

theorem partial_checksum_small_is_full:
  assumes "files w fn = Some f" and "fault w (Stat fn) = None"
    and "int (length (content f)) \<le> minPartialChecksumSize"
  shows "fst (GetPartialChecksum L w fn) =
           (case fst (GetChecksum L w fn) of
              Returns (s, err) \<Rightarrow> Returns (s, err = None, err)
            | Exits \<Rightarrow> Exits
            | Panics \<Rightarrow> Panics)
         \<and> (fault w (Open fn) = None \<and> fault w (Read fn 0 None) = None \<longrightarrow>
              fst (GetChecksum L w fn) = Returns (EncodeToString (sha256 L (content f)), None))"
  using assms
  by (simp add: GetPartialChecksum_def GetChecksum_def os_Stat_def os_Open_def io_Copy_def
      Let_def split: option.splits)

theorem partial_checksum_small_is_full_witness:
  "files world0 ''a'' = Some \<lparr>content = [1, 2, 255], atime = 5000000000, mtime = 3000000000\<rparr>
   \<and> fault world0 (Stat ''a'') = None
   \<and> int (length [1, 2, 255 :: byte]) \<le> minPartialChecksumSize
   \<and> fault world0 (Open ''a'') = None \<and> fault world0 (Read ''a'' 0 None) = None
   \<and> fst (GetChecksum lib0 world0 ''a'') = Returns (''0102ff'', None)
   \<and> fst (GetPartialChecksum lib0 world0 ''a'') = Returns (''0102ff'', True, None)"
proof -
  let ?f = "\<lparr>content = [1, 2, 255 :: byte], atime = 5000000000, mtime = 3000000000\<rparr>"
  have ex: "files world0 ''a'' = Some ?f"
    by (simp add: world0_def)
  have nf: "fault world0 c = None" for c
    by (simp add: world0_def)
  have small: "int (length (content ?f)) \<le> minPartialChecksumSize"
    by (simp add: minPartialChecksumSize_def)
  have hex: "EncodeToString (sha256 lib0 [1, 2, 255]) = ''0102ff''"
    by (simp add: lib0_def hexdigit_def)
  from partial_checksum_small_is_full [OF ex nf small, of lib0]
  show ?thesis
    using ex small by (simp add: nf hex)
qed

section \<open>Large files: three windows, one hash\<close>

text \<open>
  C2. For a file of more than 16 MiB, where the calls made succeed, \<open>GetPartialChecksum\<close>
  returns the hex SHA-256 of one stream: bytes \<open>[0, 1 MiB)\<close>, then \<open>[mid, mid + 1 MiB)\<close> with
  \<open>mid = size div 2 - (size div 2) mod 1 MiB\<close>, then the last 1 MiB; \<open>isFull\<close> is \<open>False\<close>.
\<close>

theorem partial_checksum_large_windows:
  assumes ex: "files w fn = Some f"
    and big: "minPartialChecksumSize < int (length (content f))"
    and ok: "fault w (Stat fn) = None" "fault w (Open fn) = None"
      "fault w (Read fn 0 (Some 1048576)) = None"
      "fault w (Seek fn (int (filemid (length (content f)))) SeekStart) = None"
      "fault w (Read fn (int (filemid (length (content f)))) (Some 1048576)) = None"
      "fault w (Seek fn (- 1048576) SeekEnd) = None"
      "fault w (Read fn (int (length (content f) - 1048576)) None) = None"
  shows "fst (GetPartialChecksum L w fn) =
           Returns (EncodeToString (sha256 L
              (slice (content f) 0 1048576
               @ slice (content f) (filemid (length (content f)))
                   (filemid (length (content f)) + 1048576)
               @ slice (content f) (length (content f) - 1048576) (length (content f)))),
            False, None)"
proof -
  let ?c = "content f" and ?n = "length (content f)"
  have n: "16777216 < ?n"
    using big by (simp add: minPartialChecksumSize_def)
  have mid: "filemid ?n + 1048576 \<le> ?n"
    using n by (rule filemid_bound)
  define w2 where "w2 = log_call (Open fn) (log_call (Stat fn) w)"
  have st: "os_Stat w fn = (Inr \<lparr>Size = int ?n, ModTime = mtime f\<rparr>, log_call (Stat fn) w)"
    using ex ok(1) by (simp add: os_Stat_def)
  have op: "os_Open (log_call (Stat fn) w) fn = (Inr \<lparr>fname = fn, offset = 0\<rparr>, w2)"
    using ex ok(2) by (simp add: os_Open_def w2_def)
  define w3 where "w3 = touch fn (log_call (Read fn 0 (Some 1048576)) w2)"
  have f2: "files w2 fn = Some f" and fl2: "fault w2 = fault w"
    using ex by (simp_all add: w2_def)
  have c1: "io_CopyN w2 [] \<lparr>fname = fn, offset = 0\<rparr> 1048576 =
              (None, slice ?c 0 1048576, \<lparr>fname = fn, offset = 1048576\<rparr>, w3)"
    using io_CopyN_ok [of w2 fn f 0 1048576 "[]"] f2 fl2 ok(3) n by (simp add: w3_def)
  obtain f3 where f3: "files w3 fn = Some f3" "content f3 = ?c" and fl3: "fault w3 = fault w"
    using f2 fl2 by (simp add: w3_def files_touch)
  define w4 where "w4 = log_call (Seek fn (int (filemid ?n)) SeekStart) w3"
  have s1: "f_Seek w3 \<lparr>fname = fn, offset = 1048576\<rparr> (int (filemid ?n)) SeekStart =
              (Inr \<lparr>fname = fn, offset = int (filemid ?n)\<rparr>, w4)"
    using f_Seek_start_ok [of w3 fn f3 "filemid ?n"] f3 fl3 ok(4) by (simp add: w4_def)
  define w5 where "w5 = touch fn (log_call (Read fn (int (filemid ?n)) (Some 1048576)) w4)"
  have f4: "files w4 fn = Some f3" and fl4: "fault w4 = fault w"
    using f3 fl3 by (simp_all add: w4_def)
  have c2: "io_CopyN w4 h \<lparr>fname = fn, offset = int (filemid ?n)\<rparr> 1048576 =
              (None, h @ slice ?c (filemid ?n) (filemid ?n + 1048576),
               \<lparr>fname = fn, offset = int (filemid ?n + 1048576)\<rparr>, w5)" for h
    using io_CopyN_ok [of w4 fn f3 "filemid ?n" 1048576 h] f4 f3(2) fl4 ok(5) mid
    by (simp add: w5_def)
  obtain f5 where f5: "files w5 fn = Some f5" "content f5 = ?c" and fl5: "fault w5 = fault w"
    using f4 f3(2) fl4 by (simp add: w5_def files_touch)
  define w6 where "w6 = log_call (Seek fn (- 1048576) SeekEnd) w5"
  have s2: "f_Seek w5 \<lparr>fname = fn, offset = b\<rparr> (- 1048576) SeekEnd =
              (Inr \<lparr>fname = fn, offset = int (?n - 1048576)\<rparr>, w6)" for b
    using f_Seek_end_ok [of w5 fn f5 1048576 b] f5 fl5 ok(6) n by (simp add: w6_def)
  have f6: "files w6 fn = Some f5" and fl6: "fault w6 = fault w"
    using f5 fl5 by (simp_all add: w6_def)
  have c3: "io_Copy w6 h \<lparr>fname = fn, offset = int (?n - 1048576)\<rparr> =
              (None, h @ slice ?c (?n - 1048576) ?n, \<lparr>fname = fn, offset = int ?n\<rparr>,
               touch fn (log_call (Read fn (int (?n - 1048576)) None) w6))" for h
    using io_Copy_ok [of w6 fn f5 "?n - 1048576" h] f6 f5(2) fl6 ok(7) by simp
  have big': "\<not> int ?n \<le> minPartialChecksumSize"
    using big by simp
  show ?thesis
    unfolding GetPartialChecksum_def
    by (simp add: st op Let_def big' c1 filemid_int s1 c2 s2 c3 del: One_nat_def)
qed

theorem partial_checksum_large_windows_witness:
  "files world_big ''big'' =
     Some \<lparr>content = big_content, atime = 5000000000, mtime = 3000000000\<rparr>
   \<and> minPartialChecksumSize < int (length big_content)
   \<and> (\<forall>c. fault world_big c = None)
   \<and> filemid (length big_content) = 8388608
   \<and> fst (GetPartialChecksum lib0 world_big ''big'') =
       Returns (EncodeToString
          (slice big_content 0 1048576 @ slice big_content 8388608 9437184
           @ slice big_content 16777216 17825792), False, None)"
proof -
  let ?f = "\<lparr>content = big_content, atime = 5000000000, mtime = 3000000000\<rparr>"
  have len: "length big_content = 17825792"
    by (simp add: big_content_def)
  have ex: "files world_big ''big'' = Some ?f"
    by (simp add: world_big_def world0_def)
  have nf: "fault world_big c = None" for c
    by (simp add: world_big_def world0_def)
  have big: "minPartialChecksumSize < int (length (content ?f))"
    by (simp add: len minPartialChecksumSize_def)
  have mid: "filemid 17825792 = 8388608"
    by (simp add: filemid_def)
  from partial_checksum_large_windows [OF ex big nf nf nf nf nf nf nf, of lib0]
  show ?thesis
    using ex big by (simp add: nf len mid lib0_def)
qed

section \<open>An empty list with the capability check\<close>

text \<open>
  C10. \<open>CompareFiles\<close> with an empty list of paths and \<open>checkKeepAtime\<close> set evaluates
  \<open>fns[0]\<close>: the call panics, it returns neither a grouping nor an error value, and no
  system call has been made.
\<close>

theorem CompareFiles_empty_check_panics:
  "CompareFiles L seed w [] method keepATime True = (Panics, w)"
  by (simp add: CompareFiles_def)

section \<open>The Size method\<close>

lemma digit_cases:
  "d < 10 \<Longrightarrow> d = 0 \<or> d = 1 \<or> d = 2 \<or> d = 3 \<or> d = 4 \<or> d = 5 \<or> d = 6 \<or> d = 7
     \<or> d = 8 \<or> d = (9::nat)"
  by arith

lemma digit_value: "d < 10 \<Longrightarrow> (of_char (''0123456789'' ! d) :: nat) = 48 + d"
  by (drule digit_cases) (elim disjE; simp)

lemma decimal_value_snoc:
  "decimal_value (s @ [c]) = 10 * decimal_value s + (of_char c - 48)"
  by (simp add: decimal_value_def)

lemma decimal_value_digits10: "decimal_value (digits10 n) = n"
proof (induction n rule: digits10.induct)
  case (1 n)
  show ?case
  proof (cases "n < 10")
    case True
    then show ?thesis
      by (subst digits10.simps) (simp add: decimal_value_def digit_value)
  next
    case False
    then have "decimal_value (digits10 (n div 10)) = n div 10"
      using 1 by simp
    then show ?thesis
      using False
      by (subst digits10.simps) (simp add: decimal_value_snoc digit_value)
  qed
qed

lemma decimal_value_FormatInt: "decimal_value (FormatInt (int n)) = n"
  by (simp add: FormatInt_def decimal_value_digits10 del: digits10.simps)

text \<open>
  C9. For a file that can be stat'ed, whatever its content, \<open>processFile\<close> with the Size
  method returns the byte length of the file in decimal (the string reads back as the
  length), and the calls it makes are the two stats, followed by the deferred
  \<open>os.Chtimes\<close> when \<open>keepATime\<close> is set: the file is neither opened nor read.
\<close>

theorem size_fingerprint:
  assumes "files w fn = Some f" and "fault w (AtimeStat fn) = None" and "fault w (Stat fn) = None"
  shows "fst (processFile L w fn CmpSize keepATime) =
           Returns (FormatInt (int (length (content f))), None)
         \<and> decimal_value (FormatInt (int (length (content f)))) = length (content f)
         \<and> trace (snd (processFile L w fn CmpSize keepATime)) =
             trace w @ [AtimeStat fn, Stat fn]
               @ (if keepATime then [Chtimes fn (atime f) (mtime f)] else [])"
  using assms
  by (simp add: processFile_def fingerprint_def atime_Stat_def os_Stat_def os_Chtimes_def
      CmpSize_def CmpPartial_def Let_def decimal_value_FormatInt split: option.splits)

theorem size_fingerprint_witness:
  "files world0 ''a'' = Some \<lparr>content = [1, 2, 255], atime = 5000000000, mtime = 3000000000\<rparr>
   \<and> fault world0 (AtimeStat ''a'') = None \<and> fault world0 (Stat ''a'') = None
   \<and> fst (processFile lib0 world0 ''a'' CmpSize True) = Returns (''3'', None)
   \<and> decimal_value ''3'' = 3
   \<and> trace (snd (processFile lib0 world0 ''a'' CmpSize True)) =
       [AtimeStat ''a'', Stat ''a'', Chtimes ''a'' 5000000000 3000000000]"
proof -
  let ?f = "\<lparr>content = [1, 2, 255 :: byte], atime = 5000000000, mtime = 3000000000\<rparr>"
  have ex: "files world0 ''a'' = Some ?f"
    by (simp add: world0_def)
  have nf: "fault world0 c = None" for c
    by (simp add: world0_def)
  have tr: "trace world0 = []"
    by (simp add: world0_def)
  have fmt: "FormatInt 3 = ''3''"
    by (simp add: FormatInt_def)
  from size_fingerprint [OF ex nf nf, of lib0 True]
  show ?thesis
    using ex by (simp add: nf tr fmt)
qed

section \<open>The capability probe\<close>

text \<open>
  C8. \<open>TestKeepAtime\<close> returns \<open>(false, nil)\<close> when the temporary file was created, its
  times were set and its access time was read back, and that access time is not in the
  second of the sentinel. When it returns an error, the capability is \<open>false\<close> and the
  error is the one of \<open>os.CreateTemp\<close>, of \<open>os.Chtimes\<close> or of \<open>atime.Stat\<close> on the
  temporary file. It always returns.
\<close>

theorem TestKeepAtime_outcomes:
  "(\<forall>tfn w1 w2 t w3.
      os_CreateTemp w (Dir L fn) ''fcompare'' = (Inr tfn, w1) \<and>
      os_Chtimes w1 tfn aTime2000 aTime2000 = (None, w2) \<and>
      atime_Stat w2 tfn = (Inr t, w3) \<and> Unix t \<noteq> Unix aTime2000 \<longrightarrow>
      fst (TestKeepAtime L w fn) = Returns (False, None))
   \<and> (\<forall>c e. fst (TestKeepAtime L w fn) = Returns (c, Some e) \<longrightarrow>
        \<not> c \<and>
        (fst (os_CreateTemp w (Dir L fn) ''fcompare'') = Inl e \<or>
         (\<exists>tfn w1. os_CreateTemp w (Dir L fn) ''fcompare'' = (Inr tfn, w1) \<and>
            (fst (os_Chtimes w1 tfn aTime2000 aTime2000) = Some e \<or>
             (\<exists>w2. os_Chtimes w1 tfn aTime2000 aTime2000 = (None, w2) \<and>
                fst (atime_Stat w2 tfn) = Inl e)))))
   \<and> fst (TestKeepAtime L w fn) \<noteq> Exits \<and> fst (TestKeepAtime L w fn) \<noteq> Panics"
  by (auto simp: TestKeepAtime_def Let_def split: prod.splits sum.splits option.splits if_splits)

theorem TestKeepAtime_outcomes_witness:
  "fst (os_CreateTemp world_ignore (Dir lib0 ''a'') ''fcompare'') = Inr ''./fcompare1''
   \<and> fst (os_Chtimes (snd (os_CreateTemp world_ignore (Dir lib0 ''a'') ''fcompare''))
          ''./fcompare1'' aTime2000 aTime2000) = None
   \<and> Unix 100000000000 \<noteq> Unix aTime2000
   \<and> fst (TestKeepAtime lib0 world_ignore ''a'') = Returns (False, None)
   \<and> fst (TestKeepAtime lib0 world_readonly ''a'') = Returns (False, Some EACCES)
   \<and> fst (os_CreateTemp world_readonly (Dir lib0 ''a'') ''fcompare'') = Inl EACCES"
proof -
  define w1 where "w1 = snd (os_CreateTemp world_ignore (Dir lib0 ''a'') ''fcompare'')"
  define w2 where "w2 = snd (os_Chtimes w1 ''./fcompare1'' aTime2000 aTime2000)"
  define w3 where "w3 = snd (atime_Stat w2 ''./fcompare1'')"
  have a1: "fst (os_CreateTemp world_ignore (Dir lib0 ''a'') ''fcompare'') = Inr ''./fcompare1''"
    by code_simp
  have a2: "fst (os_Chtimes w1 ''./fcompare1'' aTime2000 aTime2000) = None"
    unfolding w1_def by code_simp
  have a3: "fst (atime_Stat w2 ''./fcompare1'') = Inr 100000000000"
    unfolding w2_def w1_def by code_simp
  have a4: "Unix 100000000000 \<noteq> Unix aTime2000"
    by (simp add: Unix_def aTime2000_def)
  have b1: "os_CreateTemp world_ignore (Dir lib0 ''a'') ''fcompare'' = (Inr ''./fcompare1'', w1)"
    using a1 by (simp add: w1_def prod_eq_iff)
  have b2: "os_Chtimes w1 ''./fcompare1'' aTime2000 aTime2000 = (None, w2)"
    using a2 by (simp add: w2_def prod_eq_iff)
  have b3: "atime_Stat w2 ''./fcompare1'' = (Inr 100000000000, w3)"
    using a3 by (simp add: w3_def prod_eq_iff)
  have ignore: "fst (TestKeepAtime lib0 world_ignore ''a'') = Returns (False, None)"
    using TestKeepAtime_outcomes [of world_ignore lib0 "''a''"] b1 b2 b3 a4 by blast
  have ro: "fst (TestKeepAtime lib0 world_readonly ''a'') = Returns (False, Some EACCES)"
    by code_simp
  have c1: "isl (fst (os_CreateTemp world_readonly (Dir lib0 ''a'') ''fcompare''))"
    by code_simp
  have "fst (os_CreateTemp world_readonly (Dir lib0 ''a'') ''fcompare'') = Inl EACCES"
    using TestKeepAtime_outcomes [of world_readonly lib0 "''a''"] ro c1 by auto
  then show ?thesis
    using a1 a2 a4 ignore ro by (simp add: w1_def)
qed

section \<open>CompareFiles: the probe, and the first failing file\<close>

text \<open>
  C6, as the code has it. With \<open>checkKeepAtime\<close> set and a list that is not empty, the
  probe runs on the first path, before anything else. The operation stops there, with no
  grouping, when the probe reports not capable (error \<open>can't keep atime\<close>) or fails (the
  error of the probe), whether \<open>keepATime\<close> is set or not; when the probe reports capable,
  the operation goes on as it does without the check.
\<close>

theorem CompareFiles_probe:
  assumes "TestKeepAtime L w fn = (r, w1)"
  shows "(r = Returns (False, None) \<longrightarrow>
            CompareFiles L seed w (fn # fns) method keepATime True =
              (Returns ([], Some (ErrorString ''can't keep atime'')), w1))
         \<and> (\<forall>c e. r = Returns (c, Some e) \<longrightarrow>
              CompareFiles L seed w (fn # fns) method keepATime True = (Returns ([], Some e), w1))
         \<and> (r = Returns (True, None) \<longrightarrow>
              CompareFiles L seed w (fn # fns) method keepATime True =
                CompareFiles L seed w1 (fn # fns) method keepATime False)"
  using assms by (auto simp: CompareFiles_def)

theorem CompareFiles_probe_witness:
  "fst (TestKeepAtime lib0 world_ignore ''a'') = Returns (False, None)
   \<and> fst (CompareFiles lib0 [] world_ignore [''a'', ''b''] CmpSize True True) =
       Returns ([], Some (ErrorString ''can't keep atime''))
   \<and> fst (TestKeepAtime lib0 world_readonly ''a'') = Returns (False, Some EACCES)
   \<and> fst (CompareFiles lib0 [] world_readonly [''a'', ''b''] CmpSize True True) =
       Returns ([], Some EACCES)
   \<and> fst (TestKeepAtime lib0 world0 ''a'') = Returns (True, None)
   \<and> CompareFiles lib0 [] world0 [''a'', ''b''] CmpSize True True =
       CompareFiles lib0 [] (snd (TestKeepAtime lib0 world0 ''a'')) [''a'', ''b''] CmpSize True False"
proof -
  have i: "fst (TestKeepAtime lib0 world_ignore ''a'') = Returns (False, None)"
    by code_simp
  have r: "fst (TestKeepAtime lib0 world_readonly ''a'') = Returns (False, Some EACCES)"
    by code_simp
  have p: "fst (TestKeepAtime lib0 world0 ''a'') = Returns (True, None)"
    by code_simp
  note inst = CompareFiles_probe [OF surjective_pairing, of lib0 _ "''a''" "[]" "[''b'']" CmpSize True]
  have "CompareFiles lib0 [] world_readonly [''a'', ''b''] CmpSize True True =
          (Returns ([], Some EACCES), snd (TestKeepAtime lib0 world_readonly ''a''))"
    using inst [of world_readonly] r by blast
  then show ?thesis
    using inst [of world_ignore] inst [of world0] i r p by simp
qed

text \<open>
  The claim as stated fails: with \<open>keepATime\<close> unset, on a file system that ignores
  timestamp changes, the check alone makes the operation fail; without the check the
  same call returns a grouping.
\<close>

theorem CompareFiles_probe_counterexample:
  "fst (TestKeepAtime lib0 world_ignore ''a'') = Returns (False, None)
   \<and> fst (CompareFiles lib0 [] world_ignore [''a''] CmpSize False True) =
       Returns ([], Some (ErrorString ''can't keep atime''))
   \<and> fst (CompareFiles lib0 [] world_ignore [''a''] CmpSize False False) = Returns ([[0]], None)"
  by code_simp

lemma compare_loop_fail:
  "compare_loop L method keepATime w0 fis0 i pre = (Returns (Inr fis), w1) \<Longrightarrow>
   processFile L w1 fn method keepATime = (Returns (fi, Some err), w2) \<Longrightarrow>
   compare_loop L method keepATime w0 fis0 i (pre @ fn # post) = (Returns (Inl err), w2)"
proof (induction pre arbitrary: w0 fis0 i)
  case Nil
  then show ?case by simp
next
  case (Cons p pre)
  then show ?case
    by (auto split: prod.splits outcome.splits option.splits)
qed

text \<open>
  C7. When the files before \<open>fn\<close> are fingerprinted without error and \<open>processFile\<close>
  returns an error for \<open>fn\<close>, \<open>CompareFiles\<close> returns that error with the nil grouping,
  and the world it leaves is the one \<open>processFile\<close> left at \<open>fn\<close>: nothing is done for the
  files after it.
\<close>

theorem CompareFiles_stops_at_first_error:
  assumes probe: "checkKeepAtime \<Longrightarrow>
            fst (TestKeepAtime L w (hd (pre @ fn # post))) = Returns (True, None)"
    and pre: "compare_loop L method keepATime
                (loop_start L w (pre @ fn # post) checkKeepAtime) [] 0 pre = (Returns (Inr fis), w1)"
    and fail: "processFile L w1 fn method keepATime = (Returns (fi, Some err), w2)"
  shows "CompareFiles L seed w (pre @ fn # post) method keepATime checkKeepAtime =
           (Returns ([], Some err), w2)"
proof -
  obtain fn0 rest where fns: "pre @ fn # post = fn0 # rest"
    by (cases pre) auto
  have loop: "compare_loop L method keepATime
                (loop_start L w (pre @ fn # post) checkKeepAtime) [] 0 (pre @ fn # post) =
              (Returns (Inl err), w2)"
    using pre fail by (rule compare_loop_fail)
  show ?thesis
  proof (cases checkKeepAtime)
    case False
    with loop show ?thesis
      by (simp add: CompareFiles_def loop_start_def fns)
  next
    case True
    then have "fst (TestKeepAtime L w fn0) = Returns (True, None)"
      using probe fns by simp
    then obtain w' where "TestKeepAtime L w fn0 = (Returns (True, None), w')"
      by (cases "TestKeepAtime L w fn0") auto
    with loop True show ?thesis
      by (simp add: CompareFiles_def loop_start_def fns)
  qed
qed

theorem CompareFiles_stops_at_first_error_witness:
  "fst (TestKeepAtime lib0 world_badread (hd ([''a''] @ ''b'' # [''c'']))) = Returns (True, None)
   \<and> fst (compare_loop lib0 CmpFull True
            (loop_start lib0 world_badread ([''a''] @ ''b'' # [''c'']) True) [] 0 [''a'']) =
       Returns (Inr [(''0102ff'', [0])])
   \<and> fst (CompareFiles lib0 [] world_badread [''a'', ''b'', ''c''] CmpFull True True) =
       Returns ([], Some EIO)
   \<and> filter (\<lambda>c. c \<in> {AtimeStat ''c'', Stat ''c'', Open ''c''})
        (trace (snd (CompareFiles lib0 [] world_badread [''a'', ''b'', ''c''] CmpFull True True))) = []"
proof -
  define w0 where "w0 = loop_start lib0 world_badread ([''a''] @ ''b'' # [''c'']) True"
  define w1 where "w1 = snd (compare_loop lib0 CmpFull True w0 [] 0 [''a''])"
  define w2 where "w2 = snd (processFile lib0 w1 ''b'' CmpFull True)"
  have a: "fst (TestKeepAtime lib0 world_badread (hd ([''a''] @ ''b'' # [''c'']))) =
             Returns (True, None)"
    by code_simp
  have b: "fst (compare_loop lib0 CmpFull True w0 [] 0 [''a'']) = Returns (Inr [(''0102ff'', [0])])"
    unfolding w0_def by code_simp
  have c: "fst (processFile lib0 w1 ''b'' CmpFull True) = Returns ('''', Some EIO)"
    unfolding w1_def w0_def by code_simp
  have t: "filter (\<lambda>c. c \<in> {AtimeStat ''c'', Stat ''c'', Open ''c''}) (trace w2) = []"
    unfolding w2_def w1_def w0_def by code_simp
  have b': "compare_loop lib0 CmpFull True
              (loop_start lib0 world_badread ([''a''] @ ''b'' # [''c'']) True) [] 0 [''a''] =
            (Returns (Inr [(''0102ff'', [0])]), w1)"
    using b by (simp add: w1_def w0_def prod_eq_iff)
  have c': "processFile lib0 w1 ''b'' CmpFull True = (Returns ('''', Some EIO), w2)"
    using c by (simp add: w2_def prod_eq_iff)
  have "CompareFiles lib0 [] world_badread ([''a''] @ ''b'' # [''c'']) CmpFull True True =
          (Returns ([], Some EIO), w2)"
    using a by (intro CompareFiles_stops_at_first_error [OF _ b' c']) simp
  then show ?thesis
    using a b t by (simp add: w0_def)
qed

section \<open>What fingerprinting does to the world\<close>

lemmas prims = os_Stat_def os_Open_def io_Copy_def io_CopyN_def f_Seek_def

lemma evolves_refl [simp]: "evolves w w"
  by (simp add: evolves_def)

lemma evolves_trans: "evolves w w1 \<Longrightarrow> evolves w1 w2 \<Longrightarrow> evolves w w2"
  by (simp add: evolves_def)

lemma evolves_log_iff [simp]: "evolves w (log_call c w') \<longleftrightarrow> evolves w w'"
  by (simp add: evolves_def)

lemma evolves_touch_iff [simp]: "evolves w (touch p w') \<longleftrightarrow> evolves w w'"
  by (auto simp: evolves_def files_touch option.map_comp o_def)

lemma clean_since_self [simp]: "clean_since w w"
  by (simp add: clean_since_def)

lemma clean_since_log [simp]:
  "clean_since w w' \<Longrightarrow> fault w c = None \<Longrightarrow> clean_since w (log_call c w')"
  by (auto simp: clean_since_def)

lemma clean_since_touch [simp]: "clean_since w (touch p w') \<longleftrightarrow> clean_since w w'"
  by (simp add: clean_since_def)

lemma clean_since_calls:
  "clean_since w w' \<Longrightarrow> \<forall>c \<in> set (calls_since w w'). fault w c = None"
  by (auto simp: clean_since_def calls_since_def)

lemma os_Stat_world [simp]: "snd (os_Stat w p) = log_call (Stat p) w"
  by (simp add: os_Stat_def Let_def split: option.splits)

lemma atime_Stat_world [simp]: "snd (atime_Stat w p) = log_call (AtimeStat p) w"
  by (simp add: atime_Stat_def Let_def split: option.splits)

lemma fst_atime_Stat:
  "fst (atime_Stat w p) =
     (case fault w (AtimeStat p) of Some e \<Rightarrow> Inl e
      | None \<Rightarrow> (case files w p of None \<Rightarrow> Inl ENOENT | Some f \<Rightarrow> Inr (atime f)))"
  by (simp add: atime_Stat_def Let_def split: option.splits)

lemma fst_os_Stat:
  "fst (os_Stat w p) =
     (case fault w (Stat p) of Some e \<Rightarrow> Inl e
      | None \<Rightarrow> (case files w p of None \<Rightarrow> Inl ENOENT
          | Some f \<Rightarrow> Inr \<lparr>Size = int (length (content f)), ModTime = mtime f\<rparr>))"
  by (simp add: os_Stat_def Let_def split: option.splits)

lemma fst_os_Open:
  "fst (os_Open w p) =
     (case fault w (Open p) of Some e \<Rightarrow> Inl e
      | None \<Rightarrow> (case files w p of None \<Rightarrow> Inl ENOENT
          | Some f \<Rightarrow> Inr \<lparr>fname = p, offset = 0\<rparr>))"
  by (simp add: os_Open_def Let_def split: option.splits)

subsection \<open>GetChecksum\<close>

lemma GetChecksum_Exits:
  "fst (GetChecksum L w fn) = Exits \<longleftrightarrow> isl (fst (os_Open w fn))"
  by (simp add: GetChecksum_def prims Let_def split: option.splits)

lemma GetChecksum_not_Panics: "fst (GetChecksum L w fn) \<noteq> Panics"
  by (simp add: GetChecksum_def prims Let_def split: option.splits)

lemma GetChecksum_evolves: "evolves w (snd (GetChecksum L w fn))"
  by (simp add: GetChecksum_def prims Let_def split: option.splits)

lemma GetChecksum_clean:
  "(\<exists>s. fst (GetChecksum L w fn) = Returns (s, None)) \<longrightarrow>
   clean_since w (snd (GetChecksum L w fn))"
  by (simp add: GetChecksum_def prims Let_def split: option.splits)

lemma GetChecksum_Exits_files:
  "fst (GetChecksum L w fn) = Exits \<longrightarrow> files (snd (GetChecksum L w fn)) = files w"
  by (simp add: GetChecksum_def prims Let_def split: option.splits)

lemma GetChecksum_cong:
  assumes "fault w' = fault w"
    and "map_option content (files w' fn) = map_option content (files w fn)"
  shows "fst (GetChecksum L w' fn) = fst (GetChecksum L w fn)"
proof (cases "files w fn")
  case None
  then have "files w' fn = None"
    using assms(2) by simp
  with None assms(1) show ?thesis
    by (simp add: GetChecksum_def prims Let_def split: option.splits)
next
  case (Some f)
  then obtain f' where "files w' fn = Some f'" and "content f' = content f"
    using assms(2) by auto
  with Some assms(1) show ?thesis
    by (simp add: GetChecksum_def prims Let_def split: option.splits)
qed

subsection \<open>GetPartialChecksum\<close>

lemma GetPartialChecksum_Exits:
  "fst (GetPartialChecksum L w fn) = Exits \<longleftrightarrow>
     \<not> isl (fst (os_Stat w fn)) \<and> isl (fst (os_Open w fn))"
  by (simp add: GetPartialChecksum_def prims Let_def files_touch split: option.splits)

lemma GetPartialChecksum_not_Panics: "fst (GetPartialChecksum L w fn) \<noteq> Panics"
  by (simp add: GetPartialChecksum_def prims Let_def files_touch split: option.splits)

lemma GetPartialChecksum_evolves: "evolves w (snd (GetPartialChecksum L w fn))"
  by (simp add: GetPartialChecksum_def prims Let_def files_touch split: option.splits)

lemma GetPartialChecksum_clean:
  "(\<exists>s b. fst (GetPartialChecksum L w fn) = Returns (s, b, None)) \<longrightarrow>
   clean_since w (snd (GetPartialChecksum L w fn))"
  by (simp add: GetPartialChecksum_def prims Let_def files_touch split: option.splits)

lemma GetPartialChecksum_Exits_files:
  "fst (GetPartialChecksum L w fn) = Exits \<longrightarrow>
   files (snd (GetPartialChecksum L w fn)) = files w"
  by (simp add: GetPartialChecksum_def prims Let_def files_touch split: option.splits)

lemma GetPartialChecksum_stat_error:
  assumes "fst (os_Stat w fn) = Inl e"
  shows "fst (GetPartialChecksum L w fn) = Returns ('''', False, Some e)"
proof -
  obtain w1 where "os_Stat w fn = (Inl e, w1)"
    using assms by (cases "os_Stat w fn") auto
  then show ?thesis
    by (simp add: GetPartialChecksum_def)
qed

lemma GetPartialChecksum_cong:
  assumes "fault w' = fault w"
    and "map_option content (files w' fn) = map_option content (files w fn)"
  shows "fst (GetPartialChecksum L w' fn) = fst (GetPartialChecksum L w fn)"
proof (cases "files w fn")
  case None
  then have "files w' fn = None"
    using assms(2) by simp
  with None assms(1) show ?thesis
    by (simp add: GetPartialChecksum_def prims Let_def split: option.splits)
next
  case (Some f)
  then obtain f' where "files w' fn = Some f'" and "content f' = content f"
    using assms(2) by auto
  with Some assms(1) show ?thesis
    by (simp add: GetPartialChecksum_def prims Let_def files_touch split: option.splits)
qed

subsection \<open>The switch, and processFile\<close>

lemma fst_fingerprint:
  "fst (fingerprint L w fn m fi) =
     (if m = CmpPartial then
        (case fst (GetPartialChecksum L w fn) of
           Returns (s, b, e) \<Rightarrow> Returns (s, e) | Exits \<Rightarrow> Exits | Panics \<Rightarrow> Panics)
      else if m = CmpSize then Returns (FormatInt (Size fi), None)
      else if m = CmpFull then fst (GetChecksum L w fn)
      else Exits)"
  by (simp add: fingerprint_def Let_def split: prod.splits outcome.splits)

lemma fingerprint_cong:
  assumes "fault w' = fault w"
    and "map_option content (files w' fn) = map_option content (files w fn)"
  shows "fst (fingerprint L w' fn m fi) = fst (fingerprint L w fn m fi)"
  using GetPartialChecksum_cong [OF assms, of L] GetChecksum_cong [OF assms, of L]
  by (simp add: fst_fingerprint)

lemma snd_fingerprint:
  "snd (fingerprint L w fn m fi) =
     (if m = CmpPartial then snd (GetPartialChecksum L w fn)
      else if m = CmpFull \<and> m \<noteq> CmpSize then snd (GetChecksum L w fn) else w)"
  by (simp add: fingerprint_def Let_def split: prod.splits outcome.splits)

lemma fingerprint_evolves: "evolves w (snd (fingerprint L w fn m fi))"
  by (simp add: snd_fingerprint GetPartialChecksum_evolves GetChecksum_evolves)

lemma fingerprint_Exits_files:
  "fst (fingerprint L w fn m fi) = Exits \<Longrightarrow> files (snd (fingerprint L w fn m fi)) = files w"
  using GetPartialChecksum_Exits_files [of L w fn] GetChecksum_Exits_files [of L w fn]
  by (auto simp: fst_fingerprint snd_fingerprint split: if_splits outcome.splits)

lemma fingerprint_not_Panics: "fst (fingerprint L w fn m fi) \<noteq> Panics"
  using GetPartialChecksum_not_Panics [of L w fn] GetChecksum_not_Panics [of L w fn]
  by (auto simp: fst_fingerprint split: outcome.splits)

text \<open>How \<open>processFile\<close> ends, from the world it starts in.\<close>

lemma processFile_result:
  "fst (processFile L w fn m k) =
     (case fst (atime_Stat w fn) of
        Inl e \<Rightarrow> Exits
      | Inr at \<Rightarrow>
          (case fst (os_Stat w fn) of
             Inl e \<Rightarrow> Returns ('''', Some e)
           | Inr fi \<Rightarrow> fst (fingerprint L w fn m fi)))"
proof -
  have fp: "fst (fingerprint L (log_call (Stat fn) (log_call (AtimeStat fn) w)) fn m fi) =
            fst (fingerprint L w fn m fi)" for fi
    by (rule fingerprint_cong) simp_all
  have st: "fst (os_Stat (log_call c w) fn) = fst (os_Stat w fn)" for c
    by (simp add: fst_os_Stat split: option.splits)
  obtain r1 w1 where a: "atime_Stat w fn = (r1, w1)"
    by force
  then have w1: "w1 = log_call (AtimeStat fn) w" and r1: "fst (atime_Stat w fn) = r1"
    using atime_Stat_world [of w fn] by simp_all
  obtain r2 w2 where b: "os_Stat w1 fn = (r2, w2)"
    by force
  then have w2: "w2 = log_call (Stat fn) w1" and r2: "fst (os_Stat w fn) = r2"
    using os_Stat_world [of w1 fn] st [of "AtimeStat fn"] by (simp_all add: w1)
  show ?thesis
  proof (cases r1)
    case (Inl e)
    with a show ?thesis by (simp add: processFile_def)
  next
    case (Inr at)
    note r1' = this
    show ?thesis
    proof (cases r2)
      case (Inl e)
      with a b r1' show ?thesis
        by (simp add: processFile_def r2)
    next
      case (Inr fi)
      obtain r3 w3 where c: "fingerprint L w2 fn m fi = (r3, w3)"
        by force
      then have "fst (fingerprint L w fn m fi) = r3"
        using fp [of fi] by (simp add: w2 w1)
      with a b c r1' Inr show ?thesis
        by (cases r3) (simp_all add: processFile_def Let_def r2)
    qed
  qed
qed

section \<open>Errors: returned, or fatal\<close>

lemma Cmp_distinct [simp]:
  "CmpPartial \<noteq> CmpSize" "CmpSize \<noteq> CmpPartial" "CmpFull \<noteq> CmpSize" "CmpSize \<noteq> CmpFull"
  "CmpFull \<noteq> CmpPartial" "CmpPartial \<noteq> CmpFull"
  by (simp_all add: CmpSize_def CmpPartial_def CmpFull_def)

lemma processFile_Exits:
  "fst (processFile L w fn m k) = Exits \<longleftrightarrow>
     isl (fst (atime_Stat w fn)) \<or>
     (\<not> isl (fst (os_Stat w fn)) \<and>
        (((m = CmpPartial \<or> m = CmpFull) \<and> isl (fst (os_Open w fn))) \<or>
         (m \<noteq> CmpPartial \<and> m \<noteq> CmpSize \<and> m \<noteq> CmpFull)))"
proof (cases "fst (atime_Stat w fn)")
  case (Inl e)
  then show ?thesis
    by (simp add: processFile_result)
next
  case (Inr at)
  note at = this
  show ?thesis
  proof (cases "fst (os_Stat w fn)")
    case (Inl e)
    with at show ?thesis
      by (simp add: processFile_result)
  next
    case (Inr fi)
    with at GetChecksum_Exits [of L w fn] GetPartialChecksum_Exits [of L w fn]
    show ?thesis
      by (auto simp: processFile_result fst_fingerprint split: outcome.splits)
  qed
qed

lemma processFile_not_Panics: "fst (processFile L w fn m k) \<noteq> Panics"
  using fingerprint_not_Panics [of L w fn m]
  by (simp add: processFile_result split: sum.splits)

text \<open>
  C4, as the code has it. Errors of \<open>os.Stat\<close>, of reads and of seeks are returned to
  the caller: \<open>GetChecksum\<close>, \<open>GetPartialChecksum\<close> and \<open>processFile\<close> never panic, the
  checksum functions return a nil error only when every call they made succeeded, and
  \<open>processFile\<close> hands on what they return. A failure of \<open>os.Open\<close> in \<open>GetChecksum\<close> or
  \<open>GetPartialChecksum\<close>, a failure of \<open>atime.Stat\<close> in \<open>processFile\<close> and an
  unknown method are not returned: they end the process, and nothing else does.
\<close>

theorem errors_returned_or_fatal:
  "(fst (GetChecksum L w fn) = Exits \<longleftrightarrow> isl (fst (os_Open w fn)))
   \<and> (fst (GetPartialChecksum L w fn) = Exits \<longleftrightarrow>
        \<not> isl (fst (os_Stat w fn)) \<and> isl (fst (os_Open w fn)))
   \<and> (fst (processFile L w fn m k) = Exits \<longleftrightarrow>
        isl (fst (atime_Stat w fn)) \<or>
        (\<not> isl (fst (os_Stat w fn)) \<and>
           (((m = CmpPartial \<or> m = CmpFull) \<and> isl (fst (os_Open w fn))) \<or>
            (m \<noteq> CmpPartial \<and> m \<noteq> CmpSize \<and> m \<noteq> CmpFull))))
   \<and> fst (GetChecksum L w fn) \<noteq> Panics
   \<and> fst (GetPartialChecksum L w fn) \<noteq> Panics
   \<and> fst (processFile L w fn m k) \<noteq> Panics
   \<and> (\<forall>e. fst (os_Stat w fn) = Inl e \<longrightarrow>
          fst (GetPartialChecksum L w fn) = Returns ('''', False, Some e))
   \<and> (\<forall>e. \<not> isl (fst (atime_Stat w fn)) \<and> fst (os_Stat w fn) = Inl e \<longrightarrow>
          fst (processFile L w fn m k) = Returns ('''', Some e))
   \<and> (\<forall>s. fst (GetChecksum L w fn) = Returns (s, None) \<longrightarrow>
          (\<forall>c \<in> set (calls_since w (snd (GetChecksum L w fn))). fault w c = None))
   \<and> (\<forall>s b. fst (GetPartialChecksum L w fn) = Returns (s, b, None) \<longrightarrow>
          (\<forall>c \<in> set (calls_since w (snd (GetPartialChecksum L w fn))). fault w c = None))
   \<and> (\<not> isl (fst (atime_Stat w fn)) \<and> \<not> isl (fst (os_Stat w fn)) \<longrightarrow>
        (m = CmpFull \<longrightarrow> fst (processFile L w fn m k) = fst (GetChecksum L w fn)) \<and>
        (m = CmpPartial \<longrightarrow>
           fst (processFile L w fn m k) =
             (case fst (GetPartialChecksum L w fn) of
                Returns (s, b, e) \<Rightarrow> Returns (s, e) | Exits \<Rightarrow> Exits | Panics \<Rightarrow> Panics)))"
proof -
  have stat_err: "\<forall>e. \<not> isl (fst (atime_Stat w fn)) \<and> fst (os_Stat w fn) = Inl e \<longrightarrow>
          fst (processFile L w fn m k) = Returns ('''', Some e)"
    by (auto simp: processFile_result split: sum.splits)
  have full: "\<forall>s. fst (GetChecksum L w fn) = Returns (s, None) \<longrightarrow>
          (\<forall>c \<in> set (calls_since w (snd (GetChecksum L w fn))). fault w c = None)"
    using GetChecksum_clean [of L w fn] by (blast dest: clean_since_calls)
  have part: "\<forall>s b. fst (GetPartialChecksum L w fn) = Returns (s, b, None) \<longrightarrow>
          (\<forall>c \<in> set (calls_since w (snd (GetPartialChecksum L w fn))). fault w c = None)"
    using GetPartialChecksum_clean [of L w fn] by (blast dest: clean_since_calls)
  have hand: "\<not> isl (fst (atime_Stat w fn)) \<and> \<not> isl (fst (os_Stat w fn)) \<longrightarrow>
        (m = CmpFull \<longrightarrow> fst (processFile L w fn m k) = fst (GetChecksum L w fn)) \<and>
        (m = CmpPartial \<longrightarrow>
           fst (processFile L w fn m k) =
             (case fst (GetPartialChecksum L w fn) of
                Returns (s, b, e) \<Rightarrow> Returns (s, e) | Exits \<Rightarrow> Exits | Panics \<Rightarrow> Panics))"
    by (auto simp: processFile_result fst_fingerprint split: sum.splits)
  show ?thesis
    using GetChecksum_Exits [of L w fn] GetPartialChecksum_Exits [of L w fn]
      processFile_Exits [of L w fn m k] GetChecksum_not_Panics [of L w fn]
      GetPartialChecksum_not_Panics [of L w fn] processFile_not_Panics [of L w fn m k]
      GetPartialChecksum_stat_error [of w fn _ L] stat_err full part hand
    by (intro conjI) blast+
qed

theorem errors_returned_or_fatal_witness:
  "isl (fst (os_Open world_denied ''a''))
   \<and> fst (GetChecksum lib0 world_denied ''a'') = Exits
   \<and> fst (os_Stat world0 ''zz'') = Inl ENOENT
   \<and> fst (GetPartialChecksum lib0 world0 ''zz'') = Returns ('''', False, Some ENOENT)
   \<and> \<not> isl (fst (atime_Stat world_badread ''b'')) \<and> \<not> isl (fst (os_Stat world_badread ''b''))
   \<and> fst (GetChecksum lib0 world_badread ''b'') = Returns ('''', Some EIO)
   \<and> fst (processFile lib0 world_badread ''b'' CmpFull True) = Returns ('''', Some EIO)
   \<and> fst (GetChecksum lib0 world0 ''a'') = Returns (''0102ff'', None)
   \<and> calls_since world0 (snd (GetChecksum lib0 world0 ''a'')) = [Open ''a'', Read ''a'' 0 None]
   \<and> fault world0 (Open ''a'') = None \<and> fault world0 (Read ''a'' 0 None) = None"
proof -
  have a: "isl (fst (os_Open world_denied ''a''))"
    by code_simp
  have b: "fst (os_Stat world0 ''zz'') = Inl ENOENT"
    by code_simp
  have c: "\<not> isl (fst (atime_Stat world_badread ''b''))" "\<not> isl (fst (os_Stat world_badread ''b''))"
    by code_simp+
  have d: "fst (GetChecksum lib0 world_badread ''b'') = Returns ('''', Some EIO)"
    by code_simp
  have e: "fst (GetChecksum lib0 world0 ''a'') = Returns (''0102ff'', None)"
    by code_simp
  note t1 = errors_returned_or_fatal [of lib0 world_denied "''a''" CmpFull True]
  note t2 = errors_returned_or_fatal [of lib0 world0 "''zz''" CmpFull True]
  note t3 = errors_returned_or_fatal [of lib0 world_badread "''b''" CmpFull True]
  note t4 = errors_returned_or_fatal [of lib0 world0 "''a''" CmpFull True]
  have "fst (GetChecksum lib0 world_denied ''a'') = Exits"
    using t1 a by blast
  moreover have "fst (GetPartialChecksum lib0 world0 ''zz'') = Returns ('''', False, Some ENOENT)"
    using t2 b by blast
  moreover have "fst (processFile lib0 world_badread ''b'' CmpFull True) = Returns ('''', Some EIO)"
    using t3 c d by simp
  moreover have cs: "calls_since world0 (snd (GetChecksum lib0 world0 ''a'')) =
      [Open ''a'', Read ''a'' 0 None]"
    by code_simp
  moreover have "fault world0 (Open ''a'') = None \<and> fault world0 (Read ''a'' 0 None) = None"
    using t4 e cs by simp
  ultimately show ?thesis
    using a b c d e by simp
qed

text \<open>
  The claim as stated fails: a file that may not be opened, or that does not exist,
  ends the process instead of giving an error result.
\<close>

theorem errors_returned_counterexample:
  "fst (os_Open world_denied ''a'') = Inl EACCES
   \<and> fst (GetChecksum lib0 world_denied ''a'') = Exits
   \<and> fst (GetPartialChecksum lib0 world_denied ''a'') = Exits
   \<and> fst (processFile lib0 world_denied ''a'' CmpFull False) = Exits
   \<and> fst (atime_Stat world0 ''zz'') = Inl ENOENT
   \<and> fst (processFile lib0 world0 ''zz'' CmpSize False) = Exits"
  by code_simp

section \<open>Keeping the access time\<close>

lemma os_Chtimes_ok:
  assumes "files w p = Some f" and "fault w (Chtimes p a m) = None"
  shows "files (snd (os_Chtimes w p a m)) p =
           Some (f\<lparr>atime := stamp w p (atime f) a, mtime := stamp w p (mtime f) m\<rparr>)"
    and "trace (snd (os_Chtimes w p a m)) = trace w @ [Chtimes p a m]"
  using assms by (simp_all add: os_Chtimes_def Let_def)

text \<open>
  C5, as the code has it. Take a file that exists, on which \<open>os.Chtimes\<close> with the
  times of the file succeeds and records them to the second. With \<open>keepATime\<close> set,
  however \<open>processFile\<close> ends (a result, an error, or \<open>log.Fatal\<close>), the file is still
  there with the same content, and its access time and its modification time, in whole
  seconds, are the ones it had before the call. Whenever \<open>processFile\<close> returns after both
  stats succeeded, also when the checksum failed, its last call is \<open>os.Chtimes\<close> with
  the times read before the file was opened.
\<close>

theorem processFile_keeps_times:
  assumes ex: "files w fn = Some f"
    and cap: "fault w (Chtimes fn (atime f) (mtime f)) = None"
      "\<forall>old. Unix (stamp w fn old (atime f)) = Unix (atime f)"
      "\<forall>old. Unix (stamp w fn old (mtime f)) = Unix (mtime f)"
  shows "(\<exists>f'. files (snd (processFile L w fn m True)) fn = Some f' \<and>
             Unix (atime f') = Unix (atime f) \<and> Unix (mtime f') = Unix (mtime f) \<and>
             content f' = content f)
         \<and> (\<forall>x. fst (processFile L w fn m True) = Returns x \<and> \<not> isl (fst (os_Stat w fn)) \<longrightarrow>
               last (trace (snd (processFile L w fn m True))) = Chtimes fn (atime f) (mtime f))"
proof (cases "fault w (AtimeStat fn)")
  case (Some e)
  then have "processFile L w fn m True = (Exits, log_call (AtimeStat fn) w)"
    by (simp add: processFile_def atime_Stat_def)
  with ex show ?thesis
    by simp
next
  case None
  define w1 where "w1 = log_call (AtimeStat fn) w"
  have a: "atime_Stat w fn = (Inr (atime f), w1)"
    using None ex by (simp add: atime_Stat_def w1_def)
  show ?thesis
  proof (cases "fault w (Stat fn)")
    case (Some e)
    then have "processFile L w fn m True = (Returns ('''', Some e), log_call (Stat fn) w1)"
      using a by (simp add: processFile_def os_Stat_def w1_def)
    moreover have "isl (fst (os_Stat w fn))"
      using Some by (simp add: fst_os_Stat)
    ultimately show ?thesis
      using ex by (simp add: w1_def)
  next
    case None
    define w2 where "w2 = log_call (Stat fn) w1"
    define fi where "fi = \<lparr>Size = int (length (content f)), ModTime = mtime f\<rparr>"
    have b: "os_Stat w1 fn = (Inr fi, w2)"
      using None ex by (simp add: os_Stat_def w1_def w2_def fi_def)
    obtain r w3 where c: "fingerprint L w2 fn m fi = (r, w3)"
      by force
    have "evolves w2 w3"
      using fingerprint_evolves [of w2 L fn m fi] c by simp
    then have ev: "evolves w w3"
      by (simp add: evolves_def w2_def w1_def)
    then obtain f3 where f3: "files w3 fn = Some f3" "content f3 = content f"
      using ex by (auto simp: evolves_def dest!: spec [of _ fn])
    have same: "fault w3 = fault w" "stamp w3 = stamp w"
      using ev by (simp_all add: evolves_def)
    show ?thesis
    proof (cases "r = Exits")
      case True
      then have "files w3 = files w2"
        using fingerprint_Exits_files [of L w2 fn m fi] c by simp
      moreover have "processFile L w fn m True = (Exits, w3)"
        using a b c True by (simp add: processFile_def)
      ultimately show ?thesis
        using ex by (simp add: w2_def w1_def)
    next
      case False
      then have p: "processFile L w fn m True = (r, snd (os_Chtimes w3 fn (atime f) (mtime f)))"
        using a b c by (cases r) (simp_all add: processFile_def fi_def)
      have ok: "fault w3 (Chtimes fn (atime f) (mtime f)) = None"
        using cap(1) same by simp
      show ?thesis
        using os_Chtimes_ok [OF f3(1) ok] f3(2) cap(2,3) same
        by (simp add: p)
    qed
  qed
qed

theorem processFile_keeps_times_witness:
  "files world_badread ''b'' = Some \<lparr>content = [7], atime = 6000000000, mtime = 4000000000\<rparr>
   \<and> fault world_badread (Chtimes ''b'' 6000000000 4000000000) = None
   \<and> (\<forall>old. Unix (stamp world_badread ''b'' old 6000000000) = Unix 6000000000)
   \<and> fst (processFile lib0 world_badread ''b'' CmpFull True) = Returns ('''', Some EIO)
   \<and> \<not> isl (fst (os_Stat world_badread ''b''))
   \<and> map_option (Unix \<circ> atime) (files (snd (processFile lib0 world_badread ''b'' CmpFull False)) ''b'')
       = Some 100
   \<and> (\<exists>f'. files (snd (processFile lib0 world_badread ''b'' CmpFull True)) ''b'' = Some f' \<and>
         Unix (atime f') = 6 \<and> Unix (mtime f') = 4 \<and> content f' = [7])
   \<and> last (trace (snd (processFile lib0 world_badread ''b'' CmpFull True))) =
       Chtimes ''b'' 6000000000 4000000000"
proof -
  let ?f = "\<lparr>content = [7 :: byte], atime = 6000000000, mtime = 4000000000\<rparr>"
  have ex: "files world_badread ''b'' = Some ?f"
    by (simp add: world_badread_def world0_def)
  have c1: "fault world_badread (Chtimes ''b'' (atime ?f) (mtime ?f)) = None"
    by (simp add: world_badread_def world0_def)
  have c2: "\<forall>old. Unix (stamp world_badread ''b'' old (atime ?f)) = Unix (atime ?f)"
    and c3: "\<forall>old. Unix (stamp world_badread ''b'' old (mtime ?f)) = Unix (mtime ?f)"
    by (simp_all add: world_badread_def world0_def)
  have r: "fst (processFile lib0 world_badread ''b'' CmpFull True) = Returns ('''', Some EIO)"
    by code_simp
  have s: "\<not> isl (fst (os_Stat world_badread ''b''))"
    by code_simp
  have t: "map_option (Unix \<circ> atime)
             (files (snd (processFile lib0 world_badread ''b'' CmpFull False)) ''b'') = Some 100"
    by code_simp
  have u: "Unix 6000000000 = 6" "Unix 4000000000 = 4"
    by (simp_all add: Unix_def)
  from processFile_keeps_times [OF ex c1 c2 c3, of lib0 CmpFull]
  show ?thesis
    using ex c1 c2 r s t by (simp add: u)
qed

text \<open>
  The claim as stated fails where the times cannot be set: the result of the deferred
  \<open>os.Chtimes\<close> is dropped, and the file keeps the access time the read left.
\<close>

theorem processFile_keeps_times_counterexample:
  "fst (processFile lib0 world_notowner ''a'' CmpFull True) = Returns (''0102ff'', None)
   \<and> map_option (Unix \<circ> atime) (files world_notowner ''a'') = Some 5
   \<and> fst (os_Chtimes world_notowner ''a'' 5000000000 3000000000) = Some EPERM
   \<and> last (trace (snd (processFile lib0 world_notowner ''a'' CmpFull True))) =
       Chtimes ''a'' 5000000000 3000000000
   \<and> map_option (Unix \<circ> atime)
        (files (snd (processFile lib0 world_notowner ''a'' CmpFull True)) ''a'') = Some 100"
  by code_simp

section \<open>Grouping\<close>

subsection \<open>The map from fingerprint to indices\<close>

lemma map_of_fis_append:
  "map_of (fis_append fis fp i) =
     (map_of fis)(fp \<mapsto> (case map_of fis fp of None \<Rightarrow> [i] | Some v \<Rightarrow> v @ [i]))"
  by (induction fis) (auto simp: fun_eq_iff)

lemma keys_fis_append:
  "map fst (fis_append fis fp i) =
     (if fp \<in> set (map fst fis) then map fst fis else map fst fis @ [fp])"
  by (induction fis) (auto simp: rev_image_eqI)

lemma distinct_fis_append:
  "distinct (map fst fis) \<Longrightarrow> distinct (map fst (fis_append fis fp i))"
  by (simp add: keys_fis_append)

lemma filter_upt_prefix:
  "filter (\<lambda>j. (ds @ [fp]) ! j = k) [0..<length ds] = filter (\<lambda>j. ds ! j = k) [0..<length ds]"
  by (rule filter_cong) (simp_all add: nth_append)

lemma filter_absent: "k \<notin> set ds \<Longrightarrow> filter (\<lambda>j. ds ! j = k) [0..<length ds] = []"
  by (auto simp: filter_empty_conv)

lemma classes_snoc:
  "classes (ds @ [fp]) =
     (classes ds)(fp \<mapsto> (case classes ds fp of None \<Rightarrow> [length ds] | Some v \<Rightarrow> v @ [length ds]))"
  by (auto simp: classes_def fun_eq_iff filter_upt_prefix filter_absent)

lemma group_from_classes:
  "distinct (map fst fis) \<Longrightarrow> map_of fis = classes ds \<Longrightarrow>
   distinct (map fst (group_from fis (length ds) fps)) \<and>
   map_of (group_from fis (length ds) fps) = classes (ds @ fps)"
proof (induction fps arbitrary: fis ds)
  case Nil
  then show ?case by simp
next
  case (Cons fp fps)
  have "distinct (map fst (fis_append fis fp (length ds)))"
    using Cons.prems(1) by (rule distinct_fis_append)
  moreover have "map_of (fis_append fis fp (length ds)) = classes (ds @ [fp])"
    using Cons.prems(2) by (simp add: map_of_fis_append classes_snoc)
  ultimately show ?case
    using Cons.IH [of "fis_append fis fp (length ds)" "ds @ [fp]"] by simp
qed

lemma mset_shuffle: "mset (shuffle seed xs) = mset xs"
proof (induction seed xs rule: shuffle.induct)
  case (1 seed)
  then show ?case by simp
next
  case (2 x xs)
  then show ?case by simp
next
  case (3 s seed x xs)
  let ?ys = "x # xs"
  let ?i = "s mod length ?ys"
  have i: "?i < length ?ys"
    by simp
  have "mset ?ys = mset (take ?i ?ys @ ?ys ! ?i # drop (Suc ?i) ?ys)"
    using id_take_nth_drop [OF i] by simp
  then show ?case
    using 3 by (simp add: Let_def del: take_Suc_Cons drop_Suc_Cons nth_Cons_Suc)
qed

text \<open>
  The groups a run returns: the classes of the fingerprints, one for each fingerprint
  that occurs, in some order.
\<close>

lemma groups_are_classes:
  assumes "gs = map snd (shuffle seed (group_from [] 0 fps))"
  shows "\<exists>ks. distinct ks \<and> set ks = set fps \<and>
           gs = map (\<lambda>k. filter (\<lambda>j. fps ! j = k) [0..<length fps]) ks"
proof -
  let ?fis = "group_from [] 0 fps" and ?fis' = "shuffle seed (group_from [] 0 fps)"
  have inv: "distinct (map fst ?fis)" "map_of ?fis = classes fps"
    using group_from_classes [of "[]" "[]" fps] by (simp_all add: classes_def fun_eq_iff)
  have perm: "mset ?fis' = mset ?fis"
    by (rule mset_shuffle)
  then have "mset (map fst ?fis') = mset (map fst ?fis)"
    by simp
  then have d: "distinct (map fst ?fis')"
    using inv(1) mset_eq_imp_distinct_iff by blast
  have mem: "(k, v) \<in> set ?fis' \<longleftrightarrow> classes fps k = Some v" for k v
    using inv mset_eq_setD [OF perm] by (metis map_of_eq_Some_iff)
  have keys: "set (map fst ?fis') = set fps"
  proof (intro set_eqI iffI)
    fix k assume "k \<in> set (map fst ?fis')"
    then obtain v where "(k, v) \<in> set ?fis'" by auto
    then show "k \<in> set fps"
      by (simp add: mem classes_def split: if_splits)
  next
    fix k assume "k \<in> set fps"
    then have "classes fps k = Some (filter (\<lambda>j. fps ! j = k) [0..<length fps])"
      by (simp add: classes_def)
    then have "(k, filter (\<lambda>j. fps ! j = k) [0..<length fps]) \<in> set ?fis'"
      by (simp add: mem)
    then show "k \<in> set (map fst ?fis')"
      by force
  qed
  have "map snd ?fis' = map (\<lambda>k. filter (\<lambda>j. fps ! j = k) [0..<length fps]) (map fst ?fis')"
  proof -
    have "snd kv = filter (\<lambda>j. fps ! j = fst kv) [0..<length fps]" if "kv \<in> set ?fis'" for kv
      using that mem [of "fst kv" "snd kv"] by (simp add: classes_def split: if_splits)
    then show ?thesis
      by simp
  qed
  with d keys assms show ?thesis
    by blast
qed
lemma classes_partition:
  assumes d: "distinct ks" and s: "set ks = set fps"
    and gs: "gs = map (\<lambda>k. filter (\<lambda>j. fps ! j = k) [0..<length fps]) ks"
  shows "(\<forall>i < length fps. \<exists>!j. j < length gs \<and> i \<in> set (gs ! j))
         \<and> (\<forall>g \<in> set gs. g \<noteq> [] \<and> sorted_wrt (<) g \<and> set g \<subseteq> {..<length fps})
         \<and> (\<forall>g \<in> set gs. \<forall>i \<in> set g. \<forall>j \<in> set g. fps ! i = fps ! j)
         \<and> (\<forall>a < length gs. \<forall>b < length gs. a \<noteq> b \<longrightarrow>
               (\<forall>i \<in> set (gs ! a). \<forall>j \<in> set (gs ! b). fps ! i \<noteq> fps ! j))"
proof -
  have len: "length gs = length ks"
    by (simp add: gs)
  have nth: "gs ! a = filter (\<lambda>j. fps ! j = ks ! a) [0..<length fps]" if "a < length ks" for a
    using that by (simp add: gs)
  have mem: "i \<in> set (gs ! a) \<longleftrightarrow> i < length fps \<and> fps ! i = ks ! a" if "a < length ks" for a i
    using that by (auto simp: nth)
  have p1: "\<exists>!j. j < length gs \<and> i \<in> set (gs ! j)" if i: "i < length fps" for i
  proof -
    have "fps ! i \<in> set ks"
      using i s by simp
    then obtain a where a: "a < length ks" "ks ! a = fps ! i"
      by (auto simp: in_set_conv_nth)
    show ?thesis
    proof (rule ex1I [of _ a])
      show "a < length gs \<and> i \<in> set (gs ! a)"
        using a i by (simp add: len mem)
    next
      fix b assume "b < length gs \<and> i \<in> set (gs ! b)"
      then have b: "b < length ks" "i \<in> set (gs ! b)"
        by (simp_all add: len)
      then have "ks ! b = ks ! a"
        using a mem [OF b(1), of i] by simp
      then show "b = a"
        using d a(1) b(1) by (simp add: nth_eq_iff_index_eq)
    qed
  qed
  have p2: "g \<noteq> [] \<and> sorted_wrt (<) g \<and> set g \<subseteq> {..<length fps}" if g: "g \<in> set gs" for g
  proof -
    obtain k where k: "k \<in> set ks" "g = filter (\<lambda>j. fps ! j = k) [0..<length fps]"
      using g by (auto simp: gs)
    then obtain i where "i < length fps" "fps ! i = k"
      using s by (auto simp: in_set_conv_nth)
    then have "i \<in> set g"
      by (simp add: k(2))
    then have "g \<noteq> []"
      by auto
    moreover have "sorted_wrt (<) g"
      unfolding k(2) by (rule sorted_wrt_filter) simp
    moreover have "set g \<subseteq> {..<length fps}"
      by (auto simp: k(2))
    ultimately show ?thesis
      by simp
  qed
  have p3: "\<forall>i \<in> set g. \<forall>j \<in> set g. fps ! i = fps ! j" if "g \<in> set gs" for g
    using that by (auto simp: gs)
  have p4: "\<forall>i \<in> set (gs ! a). \<forall>j \<in> set (gs ! b). fps ! i \<noteq> fps ! j"
    if "a < length gs" "b < length gs" "a \<noteq> b" for a b
  proof -
    have "ks ! a \<noteq> ks ! b"
      using that d by (simp add: len nth_eq_iff_index_eq)
    then show ?thesis
      using that by (simp add: len mem)
  qed
  show ?thesis
    using p1 p2 p3 p4 by blast
qed

subsection \<open>The loop computes the grouping of the fingerprints\<close>

lemma compare_loop_fingerprints:
  "compare_loop L m k w fis i fns = (Returns (Inr fis'), w') \<Longrightarrow>
   length (fingerprints L m k w fns) = length fns \<and>
   fis' = group_from fis i (fingerprints L m k w fns)"
proof (induction fns arbitrary: w fis i)
  case Nil
  then show ?case by simp
next
  case (Cons fn fns)
  obtain r w1 where p: "processFile L w fn m k = (r, w1)"
    by force
  with Cons.prems obtain fi where r: "r = Returns (fi, None)"
    by (auto split: outcome.splits option.splits)
  with p Cons.prems
  have "compare_loop L m k w1 (fis_append fis fi i) (Suc i) fns = (Returns (Inr fis'), w')"
    by simp
  from Cons.IH [OF this] p r show ?case
    by simp
qed

lemma os_Chtimes_evolves: "evolves w (snd (os_Chtimes w p a m))"
  by (simp add: os_Chtimes_def Let_def evolves_def log_call_def split: option.splits)

lemma processFile_evolves: "evolves w (snd (processFile L w fn m k))"
proof -
  define w1 where "w1 = log_call (AtimeStat fn) w"
  define w2 where "w2 = log_call (Stat fn) w1"
  obtain r1 where a: "atime_Stat w fn = (r1, w1)"
    using atime_Stat_world [of w fn] by (cases "atime_Stat w fn") (simp add: w1_def)
  obtain r2 where b: "os_Stat w1 fn = (r2, w2)"
    using os_Stat_world [of w1 fn] by (cases "os_Stat w1 fn") (simp add: w2_def)
  have e2: "evolves w w2"
    by (simp add: w2_def w1_def)
  show ?thesis
  proof (cases r1)
    case (Inl e)
    with a show ?thesis by (simp add: processFile_def w1_def)
  next
    case (Inr at)
    note r1 = this
    show ?thesis
    proof (cases r2)
      case (Inl e)
      with a b r1 e2 show ?thesis by (simp add: processFile_def)
    next
      case (Inr fi)
      obtain r3 w3 where c: "fingerprint L w2 fn m fi = (r3, w3)"
        by force
      then have "evolves w2 w3"
        using fingerprint_evolves [of w2 L fn m fi] by simp
      with e2 have e3: "evolves w w3"
        by (rule evolves_trans)
      then have e4: "evolves w (snd (os_Chtimes w3 fn at (ModTime fi)))"
        using os_Chtimes_evolves by (rule evolves_trans)
      from a b c r1 Inr e3 e4 show ?thesis
        by (cases r3) (simp_all add: processFile_def Let_def)
    qed
  qed
qed

lemma processFile_cong:
  assumes "evolves w w'"
  shows "fst (processFile L w' fn m k) = fst (processFile L w fn m k)"
proof -
  have fl: "fault w' = fault w"
    and ct: "map_option content (files w' fn) = map_option content (files w fn)"
    using assms by (simp_all add: evolves_def)
  note cong = GetChecksum_cong [OF fl ct, of L] GetPartialChecksum_cong [OF fl ct, of L]
  show ?thesis
  proof (cases "files w fn")
    case None
    then have "files w' fn = None"
      using ct by simp
    with None fl cong show ?thesis
      by (simp add: processFile_result fst_atime_Stat fst_os_Stat fst_fingerprint
          split: option.splits)
  next
    case (Some f)
    then obtain f' where "files w' fn = Some f'" "content f' = content f"
      using ct by auto
    with Some fl cong show ?thesis
      by (simp add: processFile_result fst_atime_Stat fst_os_Stat fst_fingerprint
          split: option.splits)
  qed
qed

text \<open>
  The fingerprint the loop computes for a file is the one \<open>processFile\<close> gives for that
  file in the world the loop started in: what the loop does to earlier files does not
  change it.
\<close>

lemma fingerprints_stable:
  "evolves w0 w \<Longrightarrow> compare_loop L m k w fis i fns = (Returns (Inr fis'), w') \<Longrightarrow>
   \<forall>j < length fns.
     fst (processFile L w0 (fns ! j) m k) = Returns (fingerprints L m k w fns ! j, None)"
proof (induction fns arbitrary: w fis i)
  case Nil
  then show ?case by simp
next
  case (Cons fn fns)
  obtain r w1 where p: "processFile L w fn m k = (r, w1)"
    by force
  with Cons.prems(2) obtain fi where r: "r = Returns (fi, None)"
    by (auto split: outcome.splits option.splits)
  with p Cons.prems(2)
  have loop: "compare_loop L m k w1 (fis_append fis fi i) (Suc i) fns = (Returns (Inr fis'), w')"
    by simp
  have "evolves w w1"
    using processFile_evolves [of w L fn m k] p by simp
  with Cons.prems(1) have "evolves w0 w1"
    by (rule evolves_trans)
  from Cons.IH [OF this loop]
  have rest: "\<forall>j < length fns.
      fst (processFile L w0 (fns ! j) m k) = Returns (fingerprints L m k w1 fns ! j, None)" .
  have first: "fst (processFile L w0 fn m k) = Returns (fi, None)"
    using processFile_cong [OF Cons.prems(1), of L fn m k] p r by simp
  show ?case
  proof (intro allI impI)
    fix j assume "j < length (fn # fns)"
    then show "fst (processFile L w0 ((fn # fns) ! j) m k) =
        Returns (fingerprints L m k w (fn # fns) ! j, None)"
      using first rest p r by (cases j) simp_all
  qed
qed

lemma CompareFiles_success:
  assumes "CompareFiles L seed w fns m k c = (Returns (gs, None), w')"
  shows "\<exists>fis. compare_loop L m k (loop_start L w fns c) [] 0 fns = (Returns (Inr fis), w') \<and>
           gs = map snd (shuffle seed fis)"
proof (cases c)
  case False
  with assms show ?thesis
    by (auto simp: CompareFiles_def loop_start_def
        split: prod.splits outcome.splits sum.splits list.splits)
next
  case True
  with assms obtain fn0 rest where fns: "fns = fn0 # rest"
    by (cases fns) (auto simp: CompareFiles_def)
  obtain r w1 where t: "TestKeepAtime L w fn0 = (r, w1)"
    by force
  with assms True fns have "r = Returns (True, None)"
    by (auto simp: CompareFiles_def split: outcome.splits option.splits if_splits)
  with assms True fns t show ?thesis
    by (auto simp: CompareFiles_def loop_start_def split: prod.splits outcome.splits sum.splits)
qed

text \<open>
  C3. When \<open>CompareFiles\<close> returns a grouping without error, let \<open>fps\<close> be the fingerprints
  the run computed, one for each path (each is the fingerprint \<open>processFile\<close> gives for
  that path, under the method, in the world the loop started in). Then every index
  below the number of paths is in exactly one group; a group is not empty, holds indices
  of the list only, in increasing order; the indices of a group have the same
  fingerprint; and indices of two different groups have different fingerprints.
\<close>

theorem CompareFiles_partition:
  assumes run: "CompareFiles L seed w fns method keepATime checkKeepAtime = (Returns (gs, None), w')"
    and fps: "fps = fingerprints L method keepATime (loop_start L w fns checkKeepAtime) fns"
  shows "length fps = length fns
         \<and> (\<forall>i < length fns.
               fst (processFile L (loop_start L w fns checkKeepAtime) (fns ! i) method keepATime) =
                 Returns (fps ! i, None))
         \<and> (\<forall>i < length fns. \<exists>!j. j < length gs \<and> i \<in> set (gs ! j))
         \<and> (\<forall>g \<in> set gs. g \<noteq> [] \<and> sorted_wrt (<) g \<and> set g \<subseteq> {..<length fns})
         \<and> (\<forall>g \<in> set gs. \<forall>i \<in> set g. \<forall>j \<in> set g. fps ! i = fps ! j)
         \<and> (\<forall>a < length gs. \<forall>b < length gs. a \<noteq> b \<longrightarrow>
               (\<forall>i \<in> set (gs ! a). \<forall>j \<in> set (gs ! b). fps ! i \<noteq> fps ! j))"
proof -
  let ?w0 = "loop_start L w fns checkKeepAtime"
  obtain fis where loop: "compare_loop L method keepATime ?w0 [] 0 fns = (Returns (Inr fis), w')"
    and gs: "gs = map snd (shuffle seed fis)"
    using CompareFiles_success [OF run] by blast
  have len: "length fps = length fns" and fis: "fis = group_from [] 0 fps"
    using compare_loop_fingerprints [OF loop] by (simp_all add: fps)
  have stable: "\<forall>i < length fns.
      fst (processFile L ?w0 (fns ! i) method keepATime) = Returns (fps ! i, None)"
    using fingerprints_stable [OF evolves_refl loop] by (simp add: fps)
  have "gs = map snd (shuffle seed (group_from [] 0 fps))"
    using gs fis by simp
  from groups_are_classes [OF this]
  obtain ks where ks: "distinct ks" "set ks = set fps"
    "gs = map (\<lambda>k. filter (\<lambda>j. fps ! j = k) [0..<length fps]) ks"
    by blast
  note part = classes_partition [OF ks, unfolded len]
  show ?thesis
    by (rule conjI, rule len, rule conjI, rule stable, rule part)
qed
theorem CompareFiles_partition_witness:
  "fst (CompareFiles lib0 [1] world0 [''a'', ''b'', ''c''] CmpFull True True) =
     Returns ([[1], [0, 2]], None)
   \<and> fingerprints lib0 CmpFull True (loop_start lib0 world0 [''a'', ''b'', ''c''] True)
         [''a'', ''b'', ''c''] = [''0102ff'', ''07'', ''0102ff'']
   \<and> length (fingerprints lib0 CmpFull True (loop_start lib0 world0 [''a'', ''b'', ''c''] True)
         [''a'', ''b'', ''c'']) = length [''a'', ''b'', ''c'']
   \<and> fingerprints lib0 CmpFull True (loop_start lib0 world0 [''a'', ''b'', ''c''] True)
         [''a'', ''b'', ''c''] ! 0 =
       fingerprints lib0 CmpFull True (loop_start lib0 world0 [''a'', ''b'', ''c''] True)
         [''a'', ''b'', ''c''] ! 2
   \<and> fingerprints lib0 CmpFull True (loop_start lib0 world0 [''a'', ''b'', ''c''] True)
         [''a'', ''b'', ''c''] ! 1 \<noteq>
       fingerprints lib0 CmpFull True (loop_start lib0 world0 [''a'', ''b'', ''c''] True)
         [''a'', ''b'', ''c''] ! 0"
proof -
  define fps where
    "fps = fingerprints lib0 CmpFull True (loop_start lib0 world0 [''a'', ''b'', ''c''] True)
             [''a'', ''b'', ''c'']"
  define w' where "w' = snd (CompareFiles lib0 [1] world0 [''a'', ''b'', ''c''] CmpFull True True)"
  have r: "fst (CompareFiles lib0 [1] world0 [''a'', ''b'', ''c''] CmpFull True True) =
      Returns ([[1], [0, 2]], None)"
    by code_simp
  have v: "fps = [''0102ff'', ''07'', ''0102ff'']"
    unfolding fps_def by code_simp
  have run: "CompareFiles lib0 [1] world0 [''a'', ''b'', ''c''] CmpFull True True =
      (Returns ([[1], [0, 2]], None), w')"
    using r by (simp add: w'_def prod_eq_iff)
  note t = CompareFiles_partition [OF run fps_def]
  have len: "length fps = length [''a'', ''b'', ''c'']"
    using t by (rule conjunct1)
  have same: "\<forall>g \<in> set [[1], [0, 2 :: nat]]. \<forall>i \<in> set g. \<forall>j \<in> set g. fps ! i = fps ! j"
    using t by (elim conjE)
  have diff: "\<forall>a < length [[1], [0, 2 :: nat]]. \<forall>b < length [[1], [0, 2 :: nat]]. a \<noteq> b \<longrightarrow>
      (\<forall>i \<in> set ([[1], [0, 2]] ! a). \<forall>j \<in> set ([[1], [0, 2]] ! b). fps ! i \<noteq> fps ! j)"
    using t by (elim conjE)
  have "fps ! 0 = fps ! 2"
    using same [rule_format, of "[0, 2]" 0 2] by simp
  moreover have "fps ! 1 \<noteq> fps ! 0"
    using diff [rule_format, of 0 1 1 0] by simp
  ultimately show ?thesis
    using r v len unfolding fps_def by simp
qed

end
